theory Spec2Isabelle
  imports
    Main
    "HOL-Library.AList"
    "HOL-Library.Multiset"
    "HOL-Library.Char_ord"
    "HOL-Library.List_Lexorder"
begin

section \<open>The canteen wallet ledger\<close>

text \<open>
  The wallet lives in one Firestore document, \<^verbatim>\<open>wallets/canteen_owner\<close>; the audit
  trail is the collection \<^verbatim>\<open>canteenTransactions\<close>, withdrawal receipts are the
  collection \<^verbatim>\<open>withdrawals\<close>. Amounts are JavaScript numbers; they are modelled as
  exact integers (whole currency units), so no rounding is modelled. Timestamps are
  the ISO strings the source stores; the clock is an input (\<open>now\<close>), read once per call.
\<close>

subsection \<open>Documents\<close>

record wallet_doc =
  totalBalance :: int
  pendingAmount :: int
  todayCollection :: int
  todayDate :: string
  lastUpdated :: string

datatype txn_type = credit | withdrawal | refund_deduction

record wallet_transaction =
  amount :: int
  txn_kind :: txn_type
  orderId :: "string option"
  description :: string
  createdAt :: string

record withdrawal_doc =
  wd_amount :: int
  wd_status :: string
  requestedAt :: string
  processedAt :: string

record store =
  wallet :: "wallet_doc option"
  canteenTransactions :: "wallet_transaction list"
  withdrawals :: "withdrawal_doc list"

subsection \<open>Firestore transactions: queued writes, applied in order at commit\<close>

text \<open>
  A field of an update object is either a plain value or \<^verbatim>\<open>FieldValue.increment(d)\<close>.
  The object handed to \<^verbatim>\<open>transaction.update(walletRef, ...)\<close> has a subset of the
  wallet's keys; an absent key is \<open>None\<close>.
\<close>

datatype field_value = Plain int | Increment int

record wallet_update =
  upd_totalBalance :: "field_value option"
  upd_pendingAmount :: "field_value option"
  upd_todayCollection :: "field_value option"
  upd_todayDate :: "string option"
  upd_lastUpdated :: "string option"

datatype write_op =
    SetWallet wallet_doc
  | UpdateWallet wallet_update
  | AddCanteenTransaction wallet_transaction
  | AddWithdrawal withdrawal_doc

datatype error =
    DocNotFound
  | Unauthorized
  | InvalidAmount
  | WalletNotFound
  | InsufficientFunds

definition no_update :: wallet_update where
  "no_update = \<lparr>upd_totalBalance = None, upd_pendingAmount = None,
     upd_todayCollection = None, upd_todayDate = None, upd_lastUpdated = None\<rparr>"

text \<open>\<^verbatim>\<open>Object.keys(updates).length\<close>.\<close>

definition keys_length :: "wallet_update \<Rightarrow> nat" where
  "keys_length u =
     (if upd_totalBalance u = None then 0 else 1) +
     (if upd_pendingAmount u = None then 0 else 1) +
     (if upd_todayCollection u = None then 0 else 1) +
     (if upd_todayDate u = None then 0 else 1) +
     (if upd_lastUpdated u = None then 0 else 1)"

fun apply_field :: "field_value option \<Rightarrow> int \<Rightarrow> int" where
  "apply_field None old = old"
| "apply_field (Some (Plain v)) old = v"
| "apply_field (Some (Increment d)) old = old + d"

fun apply_string :: "string option \<Rightarrow> string \<Rightarrow> string" where
  "apply_string None old = old"
| "apply_string (Some v) old = v"

definition apply_update :: "wallet_update \<Rightarrow> wallet_doc \<Rightarrow> wallet_doc" where
  "apply_update u w =
     \<lparr>totalBalance = apply_field (upd_totalBalance u) (totalBalance w),
      pendingAmount = apply_field (upd_pendingAmount u) (pendingAmount w),
      todayCollection = apply_field (upd_todayCollection u) (todayCollection w),
      todayDate = apply_string (upd_todayDate u) (todayDate w),
      lastUpdated = apply_string (upd_lastUpdated u) (lastUpdated w)\<rparr>"

text \<open>
  One queued write against the store. \<^verbatim>\<open>update\<close> of a document that does not exist
  fails the commit; \<^verbatim>\<open>set\<close> creates or replaces; \<^verbatim>\<open>collection.doc()\<close> followed by
  \<^verbatim>\<open>set\<close> appends a fresh document.
\<close>

fun apply_write :: "store \<Rightarrow> write_op \<Rightarrow> error + store" where
  "apply_write st (SetWallet w) = Inr (st\<lparr>wallet := Some w\<rparr>)"
| "apply_write st (UpdateWallet u) =
     (case wallet st of
        None \<Rightarrow> Inl DocNotFound
      | Some w \<Rightarrow> Inr (st\<lparr>wallet := Some (apply_update u w)\<rparr>))"
| "apply_write st (AddCanteenTransaction t) =
     Inr (st\<lparr>canteenTransactions := canteenTransactions st @ [t]\<rparr>)"
| "apply_write st (AddWithdrawal r) =
     Inr (st\<lparr>withdrawals := withdrawals st @ [r]\<rparr>)"

fun commit :: "store \<Rightarrow> write_op list \<Rightarrow> error + store" where
  "commit st [] = Inr st"
| "commit st (w # ws) =
     (case apply_write st w of Inl e \<Rightarrow> Inl e | Inr st' \<Rightarrow> commit st' ws)"

text \<open>
  \<^verbatim>\<open>adminDb.runTransaction(body)\<close>: the body reads the store and either throws or
  queues writes; a throw or a failed commit leaves the store as it was.
\<close>

definition runTransaction ::
  "store \<Rightarrow> (store \<Rightarrow> error + write_op list) \<Rightarrow> (error + unit) \<times> store" where
  "runTransaction st body =
     (case body st of
        Inl e \<Rightarrow> (Inl e, st)
      | Inr ws \<Rightarrow>
          (case commit st ws of
             Inl e \<Rightarrow> (Inl e, st)
           | Inr st' \<Rightarrow> (Inr (), st')))"

subsection \<open>\<^verbatim>\<open>updateCanteenWallet\<close>\<close>

text \<open>\<^verbatim>\<open>new Date().toISOString().split("T")[0]\<close>: the part before the first \<^verbatim>\<open>T\<close>.\<close>

definition isoDate :: "string \<Rightarrow> string" where
  "isoDate now = takeWhile (\<lambda>c. c \<noteq> CHR ''T'') now"

definition activeStatuses :: "string list" where
  "activeStatuses = [''confirmed'', ''preparing'', ''ready'']"

text \<open>The writes queued before the transition logic: lazy creation or day rollover.\<close>

definition walletInit :: "wallet_doc option \<Rightarrow> string \<Rightarrow> write_op list" where
  "walletInit walletDoc now =
     (case walletDoc of
        None \<Rightarrow>
          [SetWallet \<lparr>totalBalance = 0, pendingAmount = 0, todayCollection = 0,
             todayDate = isoDate now, lastUpdated = now\<rparr>]
      | Some data \<Rightarrow>
          (if todayDate data \<noteq> isoDate now
           then [UpdateWallet (no_update\<lparr>upd_todayCollection := Some (Plain 0),
                   upd_todayDate := Some (isoDate now)\<rparr>)]
           else []))"

text \<open>
  The status-transition logic: the \<^verbatim>\<open>updates\<close> object and the transaction record
  (\<open>None\<close> when \<^verbatim>\<open>needsTransactionRecord\<close> stays false). The assignments are made in
  the source's order, a later one overwriting an earlier one on the same key.
\<close>

definition transitionLogic ::
  "string \<Rightarrow> string \<Rightarrow> string \<Rightarrow> int \<Rightarrow> string
     \<Rightarrow> wallet_update \<times> wallet_transaction option" where
  "transitionLogic now oldStatus newStatus amt oid =
     (let updates0 = no_update\<lparr>upd_lastUpdated := Some now\<rparr>;
          record0 = None;
          isNewConfirmed = (oldStatus = ''pending'' \<and> newStatus \<in> set activeStatuses);
          updates1 = (if isNewConfirmed
                      then updates0\<lparr>upd_pendingAmount := Some (Increment amt)\<rparr>
                      else updates0);
          isNewCompleted = (oldStatus \<in> set activeStatuses \<and> newStatus = ''completed'');
          isDirectCompleted = (oldStatus = ''pending'' \<and> newStatus = ''completed'');
          (updates2, record2) =
            (if isNewCompleted then
               (updates1\<lparr>upd_pendingAmount := Some (Increment (- amt)),
                          upd_totalBalance := Some (Increment amt),
                          upd_todayCollection := Some (Increment amt)\<rparr>,
                Some \<lparr>amount = amt, txn_kind = credit, orderId = Some oid,
                       description = ''Order Completed - #'' @ oid, createdAt = now\<rparr>)
             else if isDirectCompleted then
               (updates1\<lparr>upd_totalBalance := Some (Increment amt),
                          upd_todayCollection := Some (Increment amt)\<rparr>,
                Some \<lparr>amount = amt, txn_kind = credit, orderId = Some oid,
                       description = ''Order Completed (Direct) - #'' @ oid,
                       createdAt = now\<rparr>)
             else (updates1, record0));
          isCancellingActive = (oldStatus \<in> set activeStatuses \<and> newStatus = ''cancelled'');
          updates3 = (if isCancellingActive
                      then updates2\<lparr>upd_pendingAmount := Some (Increment (- amt))\<rparr>
                      else updates2);
          isCancellingCompleted = (oldStatus = ''completed'' \<and> newStatus = ''cancelled'');
          (updates4, record4) =
            (if isCancellingCompleted then
               (updates3\<lparr>upd_totalBalance := Some (Increment (- amt))\<rparr>,
                Some \<lparr>amount = amt, txn_kind = refund_deduction, orderId = Some oid,
                       description = ''Order Refunded - #'' @ oid, createdAt = now\<rparr>)
             else (updates3, record2))
      in (updates4, record4))"

definition updateCanteenWallet ::
  "store \<Rightarrow> string \<Rightarrow> string \<Rightarrow> string \<Rightarrow> int \<Rightarrow> string \<Rightarrow> write_op list" where
  "updateCanteenWallet st now oldStatus newStatus amt oid =
     (if amt \<le> 0 \<or> oldStatus = newStatus then []
      else
        (let (updates, txnRecord) = transitionLogic now oldStatus newStatus amt oid
         in walletInit (wallet st) now
            @ (if keys_length updates > 1 then [UpdateWallet updates] else [])
            @ (case txnRecord of None \<Rightarrow> [] | Some r \<Rightarrow> [AddCanteenTransaction r])))"

text \<open>The call inside a transaction that makes no other write to the wallet.\<close>

definition applyTransition ::
  "store \<Rightarrow> string \<Rightarrow> string \<Rightarrow> string \<Rightarrow> int \<Rightarrow> string \<Rightarrow> (error + unit) \<times> store" where
  "applyTransition st now oldStatus newStatus amt oid =
     runTransaction st
       (\<lambda>s. Inr (updateCanteenWallet s now oldStatus newStatus amt oid))"

subsection \<open>The withdrawal route\<close>

text \<open>
  The body handed to \<^verbatim>\<open>runTransaction\<close> by \<^verbatim>\<open>POST /api/admin/wallet/withdraw\<close>.
  \<^verbatim>\<open>totalBalance || 0\<close> is written out: a falsy number is \<open>0\<close>.
\<close>

definition withdrawBody :: "string \<Rightarrow> int \<Rightarrow> store \<Rightarrow> error + write_op list" where
  "withdrawBody now amt st =
     (case wallet st of
        None \<Rightarrow> Inl WalletNotFound
      | Some data \<Rightarrow>
          (let currentBalance = (if totalBalance data = 0 then 0 else totalBalance data)
           in if currentBalance < amt then Inl InsufficientFunds
              else Inr
                [UpdateWallet (no_update\<lparr>upd_totalBalance := Some (Increment (- amt)),
                   upd_lastUpdated := Some now\<rparr>),
                 AddCanteenTransaction
                   \<lparr>amount = amt, txn_kind = withdrawal, orderId = None,
                    description = ''Wallet Withdrawal'', createdAt = now\<rparr>,
                 AddWithdrawal
                   \<lparr>wd_amount = amt, wd_status = ''completed'',
                    requestedAt = now, processedAt = now\<rparr>]))"

text \<open>
  The route: the admin check (\<^verbatim>\<open>verifyAdmin\<close>, an input here), the amount check
  \<^verbatim>\<open>!amount || amount <= 0\<close>, then the transaction.
\<close>

definition withdrawPOST ::
  "bool \<Rightarrow> string \<Rightarrow> int \<Rightarrow> store \<Rightarrow> (error + unit) \<times> store" where
  "withdrawPOST isAdmin now amt st =
     (if \<not> isAdmin then (Inl Unauthorized, st)
      else if amt = 0 \<or> amt \<le> 0 then (Inl InvalidAmount, st)
      else runTransaction st (withdrawBody now amt))"

subsection \<open>The transition table of the specification\<close>

text \<open>
  The table of the specification, row by row: the multiples of the amount added to
  \<open>pendingAmount\<close>, \<open>totalBalance\<close> and \<open>todayCollection\<close>, and the kind of the log
  entry (\<open>None\<close>: no entry). A transition that is in no row has no effect.
\<close>

definition spec_transition_table ::
  "string \<Rightarrow> string \<Rightarrow> int \<times> int \<times> int \<times> txn_type option" where
  "spec_transition_table old new =
     (if old = ''pending'' \<and> new \<in> {''confirmed'', ''preparing'', ''ready''}
        then (1, 0, 0, None)
      else if old \<in> {''confirmed'', ''preparing'', ''ready''} \<and> new = ''completed''
        then (- 1, 1, 1, Some credit)
      else if old = ''pending'' \<and> new = ''completed''
        then (0, 1, 1, Some credit)
      else if old \<in> {''confirmed'', ''preparing'', ''ready''} \<and> new = ''cancelled''
        then (- 1, 0, 0, None)
      else if old = ''completed'' \<and> new = ''cancelled''
        then (0, - 1, 0, Some refund_deduction)
      else (0, 0, 0, None))"

text \<open>
  The wallet the deltas are applied to: the stored one, zero-initialised when there is
  none, with \<open>todayCollection\<close> reset when the stored date is not today's.
\<close>

definition dayStart :: "wallet_doc option \<Rightarrow> string \<Rightarrow> wallet_doc" where
  "dayStart walletDoc now =
     (case walletDoc of
        None \<Rightarrow> \<lparr>totalBalance = 0, pendingAmount = 0, todayCollection = 0,
                  todayDate = isoDate now, lastUpdated = now\<rparr>
      | Some d \<Rightarrow>
          (if todayDate d = isoDate now then d
           else d\<lparr>todayCollection := 0, todayDate := isoDate now\<rparr>))"

section \<open>The demand forecast\<close>

text \<open>
  The forecast route reads the active auto-orders and the menu items and computes the
  report. Quantities and stock are modelled as integers. Of each document only the
  fields that reach the demand figures are kept (user names, prices, times and the
  calendar date string of a forecast day are display data). \<^verbatim>\<open>String.localeCompare\<close>
  is a parameter \<open>lc\<close> of the model.
\<close>

subsection \<open>Days\<close>

datatype DayOfWeek = Mon | Tue | Wed | Thu | Fri | Sat | Sun

definition ALL_DAYS :: "DayOfWeek list" where
  "ALL_DAYS = [Mon, Tue, Wed, Thu, Fri, Sat, Sun]"

definition WEEKDAYS :: "DayOfWeek list" where
  "WEEKDAYS = [Mon, Tue, Wed, Thu, Fri]"

text \<open>\<^verbatim>\<open>DAY_MAP\<close>, indexed by \<^verbatim>\<open>getUTCDay()\<close>, which is in \<open>0..6\<close>.\<close>

definition DAY_MAP :: "nat \<Rightarrow> DayOfWeek" where
  "DAY_MAP i = [Sun, Mon, Tue, Wed, Thu, Fri, Sat] ! i"

fun dayName :: "DayOfWeek \<Rightarrow> string" where
  "dayName Mon = ''Mon''"
| "dayName Tue = ''Tue''"
| "dayName Wed = ''Wed''"
| "dayName Thu = ''Thu''"
| "dayName Fri = ''Fri''"
| "dayName Sat = ''Sat''"
| "dayName Sun = ''Sun''"

definition IST_OFFSET_MS :: int where
  "IST_OFFSET_MS = 19800000"

text \<open>
  \<^verbatim>\<open>Date.prototype.getUTCDay\<close> of a time in milliseconds since the epoch: the epoch
  day (1 January 1970) was a Thursday, day 4.
\<close>

definition getUTCDay :: "int \<Rightarrow> nat" where
  "getUTCDay ms = nat ((ms div 86400000 + 4) mod 7)"

record ist_date =
  dayOfWeek :: DayOfWeek
  dayIndex :: nat

definition getISTDate :: "int \<Rightarrow> ist_date" where
  "getISTDate date =
     (let ist = date + IST_OFFSET_MS
      in \<lparr>dayOfWeek = DAY_MAP (getUTCDay ist), dayIndex = getUTCDay ist\<rparr>)"

text \<open>
  The frequency and the custom days are read from the stored document, so either may be
  absent; \<open>None\<close> for the days also stands for a value that is not an array.
\<close>

definition getScheduledDays :: "string option \<Rightarrow> DayOfWeek list option \<Rightarrow> DayOfWeek list" where
  "getScheduledDays freq days =
     (if freq = Some ''daily'' then ALL_DAYS
      else if freq = Some ''weekdays'' then WEEKDAYS
      else if freq = Some ''custom'' then (case days of Some ds \<Rightarrow> ds | None \<Rightarrow> [])
      else [])"

subsection \<open>Documents and derived records\<close>

record menu_doc =
  md_id :: string
  md_name :: "string option"
  md_quantity :: "int option"

record menu_item =
  mi_id :: string
  mi_name :: string
  stock :: int

record auto_order_doc =
  ao_id :: string
  ao_itemId :: string
  ao_itemName :: "string option"
  ao_quantity :: "int option"
  ao_frequency :: "string option"
  ao_customDays :: "DayOfWeek list option"

record EnrichedAutoOrder =
  eo_id :: string
  eo_itemId :: string
  eo_itemName :: string
  quantity :: int
  frequency :: string
  customDays :: "DayOfWeek list option"
  scheduledDays :: "DayOfWeek list"

record demand_entry =
  de_itemId :: string
  de_itemName :: string
  de_day :: DayOfWeek
  totalQuantity :: int

record daily_total =
  dt_itemId :: string
  dt_itemName :: string
  totalDaily :: int

record ForecastDayItem =
  itemId :: string
  itemName :: string
  demand :: int
  currentStock :: int
  cumulativeDemand :: int
  remaining :: int
  risk :: bool

record ForecastDay =
  fd_dayName :: DayOfWeek
  items :: "ForecastDayItem list"

record forecast_summary =
  totalActiveOrders :: nat
  itemsAtRisk :: nat
  dailyDemandByItem :: "daily_total list"

record forecast_report =
  autoOrders :: "EnrichedAutoOrder list"
  aggregateDemand :: "demand_entry list"
  forecast :: "ForecastDay list"
  summary :: forecast_summary

subsection \<open>JavaScript helpers\<close>

text \<open>
  A \<^verbatim>\<open>Map\<close> is an association list in insertion order with distinct keys;
  \<^verbatim>\<open>set\<close> is \<^const>\<open>AList.update\<close> (a present key keeps its place), \<^verbatim>\<open>get\<close> is
  \<^const>\<open>map_of\<close>, \<^verbatim>\<open>values()\<close> is \<open>map snd\<close>.

  \<^verbatim>\<open>Array.prototype.sort\<close> with a comparator is stable; it is modelled by a stable
  insertion sort, which is the sorted order whenever the comparator is consistent.
\<close>

fun insort_cmp :: "('a \<Rightarrow> 'a \<Rightarrow> int) \<Rightarrow> 'a \<Rightarrow> 'a list \<Rightarrow> 'a list" where
  "insort_cmp cmp x [] = [x]"
| "insort_cmp cmp x (y # ys) =
     (if cmp x y \<le> 0 then x # y # ys else y # insort_cmp cmp x ys)"

definition sort_cmp :: "('a \<Rightarrow> 'a \<Rightarrow> int) \<Rightarrow> 'a list \<Rightarrow> 'a list" where
  "sort_cmp cmp xs = foldr (insort_cmp cmp) xs []"

text \<open>\<^verbatim>\<open>ALL_DAYS.indexOf(day)\<close>; every day is in \<open>ALL_DAYS\<close>.\<close>

fun indexOf :: "'a list \<Rightarrow> 'a \<Rightarrow> int" where
  "indexOf [] x = - 1"
| "indexOf (y # ys) x =
     (if y = x then 0 else (let i = indexOf ys x in if i < 0 then - 1 else i + 1))"

text \<open>\<^verbatim>\<open>s || dflt\<close> for a string field that may be absent.\<close>

definition strOr :: "string option \<Rightarrow> string \<Rightarrow> string" where
  "strOr s dflt = (case s of None \<Rightarrow> dflt | Some v \<Rightarrow> if v = [] then dflt else v)"

subsection \<open>The computation of the route\<close>

definition menuMapOf :: "menu_doc list \<Rightarrow> (string \<times> menu_item) list" where
  "menuMapOf docs =
     fold (\<lambda>d m. AList.update (md_id d)
             \<lparr>mi_id = md_id d,
              mi_name = strOr (md_name d) ''Unknown'',
              stock = (case md_quantity d of None \<Rightarrow> 0 | Some q \<Rightarrow> q)\<rparr> m)
       docs []"

text \<open>
  One enriched auto-order. \<^verbatim>\<open>d.quantity || 1\<close>: an absent or zero quantity is 1.
  \<^verbatim>\<open>d.itemName || menuMap.get(d.itemId)?.name || "Unknown"\<close>: a menu name is
  never empty, so the last default is reached only when the item is not on the menu.
\<close>

definition enrich :: "(string \<times> menu_item) list \<Rightarrow> auto_order_doc \<Rightarrow> EnrichedAutoOrder" where
  "enrich menuMap d =
     \<lparr>eo_id = ao_id d,
      eo_itemId = ao_itemId d,
      eo_itemName =
        strOr (ao_itemName d)
          (strOr (map_option mi_name (map_of menuMap (ao_itemId d))) ''Unknown''),
      quantity = (case ao_quantity d of None \<Rightarrow> 1 | Some q \<Rightarrow> if q = 0 then 1 else q),
      frequency = strOr (ao_frequency d) ''daily'',
      customDays = ao_customDays d,
      scheduledDays = getScheduledDays (ao_frequency d) (ao_customDays d)\<rparr>"

definition demandKey :: "string \<Rightarrow> DayOfWeek \<Rightarrow> string" where
  "demandKey iid day = iid @ ''::'' @ dayName day"

definition addDemand ::
  "EnrichedAutoOrder \<Rightarrow> DayOfWeek \<Rightarrow> (string \<times> demand_entry) list
     \<Rightarrow> (string \<times> demand_entry) list" where
  "addDemand ord day demandMap =
     (let key = demandKey (eo_itemId ord) day
      in case map_of demandMap key of
           Some existing \<Rightarrow>
             AList.update key
               (existing\<lparr>totalQuantity := totalQuantity existing + quantity ord\<rparr>) demandMap
         | None \<Rightarrow>
             AList.update key
               \<lparr>de_itemId = eo_itemId ord, de_itemName = eo_itemName ord, de_day = day,
                totalQuantity = quantity ord\<rparr> demandMap)"

definition demandMapOf :: "EnrichedAutoOrder list \<Rightarrow> (string \<times> demand_entry) list" where
  "demandMapOf orders =
     fold (\<lambda>ord dm. fold (addDemand ord) (scheduledDays ord) dm) orders []"

definition demandCmp :: "(string \<Rightarrow> string \<Rightarrow> int) \<Rightarrow> demand_entry \<Rightarrow> demand_entry \<Rightarrow> int" where
  "demandCmp lc a b =
     (let c = lc (de_itemName a) (de_itemName b)
      in if c \<noteq> 0 then c else indexOf ALL_DAYS (de_day a) - indexOf ALL_DAYS (de_day b))"

definition addDailyTotal ::
  "demand_entry \<Rightarrow> (string \<times> daily_total) list \<Rightarrow> (string \<times> daily_total) list" where
  "addDailyTotal entry dailyTotalMap =
     (case map_of dailyTotalMap (de_itemId entry) of
        Some existing \<Rightarrow>
          AList.update (de_itemId entry)
            (existing\<lparr>totalDaily := max (totalDaily existing) (totalQuantity entry)\<rparr>)
            dailyTotalMap
      | None \<Rightarrow>
          AList.update (de_itemId entry)
            \<lparr>dt_itemId = de_itemId entry, dt_itemName = de_itemName entry,
             totalDaily = totalQuantity entry\<rparr> dailyTotalMap)"

definition dailyTotalMapOf :: "demand_entry list \<Rightarrow> (string \<times> daily_total) list" where
  "dailyTotalMapOf entries = fold addDailyTotal entries []"

text \<open>\<^verbatim>\<open>demandMap.get(key)?.totalQuantity || 0\<close>.\<close>

definition todayDemandOf :: "(string \<times> demand_entry) list \<Rightarrow> string \<Rightarrow> DayOfWeek \<Rightarrow> int" where
  "todayDemandOf demandMap iid day =
     (case map_of demandMap (demandKey iid day) of
        None \<Rightarrow> 0
      | Some e \<Rightarrow> if totalQuantity e = 0 then 0 else totalQuantity e)"

text \<open>
  One turn of the loop over \<^verbatim>\<open>menuMap.entries()\<close>: the state is the day's items so
  far and the cumulative-demand tracker.
\<close>

definition dayItemStep ::
  "(string \<times> demand_entry) list \<Rightarrow> DayOfWeek \<Rightarrow> string \<times> menu_item
     \<Rightarrow> ForecastDayItem list \<times> (string \<rightharpoonup> int) \<Rightarrow> ForecastDayItem list \<times> (string \<rightharpoonup> int)" where
  "dayItemStep demandMap day entry acc =
     (case (entry, acc) of ((iid, menuItem), (dayItems, tracker)) \<Rightarrow>
        (let todayDemand = todayDemandOf demandMap iid day
         in if todayDemand = 0 then (dayItems, tracker)
            else
              (let prevCumulative =
                     (case tracker iid of None \<Rightarrow> 0 | Some v \<Rightarrow> if v = 0 then 0 else v);
                   newCumulative = prevCumulative + todayDemand;
                   rem = stock menuItem - newCumulative
               in (dayItems @
                     [\<lparr>itemId = iid, itemName = mi_name menuItem, demand = todayDemand,
                       currentStock = stock menuItem, cumulativeDemand = newCumulative,
                       remaining = rem, risk = (rem < 0)\<rparr>],
                   tracker(iid \<mapsto> newCumulative)))))"

definition riskCmp :: "(string \<Rightarrow> string \<Rightarrow> int) \<Rightarrow> ForecastDayItem \<Rightarrow> ForecastDayItem \<Rightarrow> int" where
  "riskCmp lc a b =
     (if risk a \<noteq> risk b then (if risk a then - 1 else 1)
      else lc (itemName a) (itemName b))"

text \<open>One turn of the loop over the offsets \<open>0..6\<close>.\<close>

definition forecastStep ::
  "(string \<Rightarrow> string \<Rightarrow> int) \<Rightarrow> int \<Rightarrow> (string \<times> menu_item) list
     \<Rightarrow> (string \<times> demand_entry) list \<Rightarrow> nat
     \<Rightarrow> ForecastDay list \<times> (string \<rightharpoonup> int) \<Rightarrow> ForecastDay list \<times> (string \<rightharpoonup> int)" where
  "forecastStep lc now menuMap demandMap offset acc =
     (case acc of (fc, tracker) \<Rightarrow>
        (let futureDate = now + int offset * 24 * 60 * 60 * 1000;
             day = dayOfWeek (getISTDate futureDate);
             (dayItems, tracker') = fold (dayItemStep demandMap day) menuMap ([], tracker)
         in (fc @ [\<lparr>fd_dayName = day, items = sort_cmp (riskCmp lc) dayItems\<rparr>], tracker')))"

definition forecastOf ::
  "(string \<Rightarrow> string \<Rightarrow> int) \<Rightarrow> int \<Rightarrow> (string \<times> menu_item) list
     \<Rightarrow> (string \<times> demand_entry) list \<Rightarrow> ForecastDay list" where
  "forecastOf lc now menuMap demandMap =
     fst (fold (forecastStep lc now menuMap demandMap) [0..<7] ([], Map.empty))"

text \<open>The report of the \<^verbatim>\<open>GET\<close> handler.\<close>

definition computeForecast ::
  "(string \<Rightarrow> string \<Rightarrow> int) \<Rightarrow> int \<Rightarrow> auto_order_doc list \<Rightarrow> menu_doc list
     \<Rightarrow> forecast_report" where
  "computeForecast lc now autoOrderDocs menuDocs =
     (let menuMap = menuMapOf menuDocs;
          orders = map (enrich menuMap) autoOrderDocs;
          demandMap = demandMapOf orders;
          aggregate = sort_cmp (demandCmp lc) (map snd demandMap);
          dailyTotalMap = dailyTotalMapOf aggregate;
          fc = forecastOf lc now menuMap demandMap;
          riskItemIds = remdups (map itemId (filter risk (concat (map items fc))))
      in \<lparr>autoOrders = orders,
          aggregateDemand = aggregate,
          forecast = fc,
          summary =
            \<lparr>totalActiveOrders = length orders,
             itemsAtRisk = length riskItemIds,
             dailyDemandByItem =
               sort_cmp (\<lambda>a b. totalDaily b - totalDaily a) (map snd dailyTotalMap)\<rparr>\<rparr>)"

section \<open>Example data of the ledger\<close>

text \<open>Stores used to exercise the ledger at concrete inputs.\<close>

definition exampleStore :: store where
  "exampleStore = \<lparr>wallet = Some \<lparr>totalBalance = 1000, pendingAmount = 250, todayCollection = 40,
             todayDate = ''2024-01-02'', lastUpdated = ''2024-01-02T08:00:00.000Z''\<rparr>,
          canteenTransactions = [], withdrawals = []\<rparr>"

definition staleStore :: store where
  "staleStore =
     \<lparr>wallet = Some \<lparr>totalBalance = 0, pendingAmount = 0, todayCollection = 500,
         todayDate = ''2024-01-01'', lastUpdated = ''2024-01-01T18:30:00.000Z''\<rparr>,
      canteenTransactions = [], withdrawals = []\<rparr>"


section \<open>Specification-level notions of the forecast\<close>

text \<open>
  What one enriched order adds to the demand of an item on a weekday: its quantity,
  once for every time the weekday occurs in its list of scheduled days.
\<close>

definition orderDemand :: "EnrichedAutoOrder \<Rightarrow> string \<Rightarrow> DayOfWeek \<Rightarrow> int" where
  "orderDemand ord i d =
     (if eo_itemId ord = i then quantity ord * int (count_list (scheduledDays ord) d) else 0)"

text \<open>The weekday of the forecast day at an offset, as the loop computes it.\<close>

definition dayAt :: "int \<Rightarrow> nat \<Rightarrow> DayOfWeek" where
  "dayAt now k = dayOfWeek (getISTDate (now + int k * 24 * 60 * 60 * 1000))"

text \<open>
  The running cumulative demand of an item: the sum of its demand on the weekdays of
  the offsets \<open>0..k\<close>.
\<close>

definition cumulativeUpTo ::
  "(string \<times> demand_entry) list \<Rightarrow> int \<Rightarrow> string \<Rightarrow> nat \<Rightarrow> int" where
  "cumulativeUpTo dm now i k = (\<Sum>j\<leftarrow>[0..<Suc k]. todayDemandOf dm i (dayAt now j))"

text \<open>The row the report is expected to carry for a menu entry on the day at offset \<open>k\<close>.\<close>

definition expectedItem ::
  "(string \<times> demand_entry) list \<Rightarrow> int \<Rightarrow> nat \<Rightarrow> string \<times> menu_item \<Rightarrow> ForecastDayItem" where
  "expectedItem dm now k entry =
     (case entry of (i, m) \<Rightarrow>
        \<lparr>itemId = i, itemName = mi_name m,
         demand = todayDemandOf dm i (dayAt now k),
         currentStock = stock m,
         cumulativeDemand = cumulativeUpTo dm now i k,
         remaining = stock m - cumulativeUpTo dm now i k,
         risk = (stock m - cumulativeUpTo dm now i k < 0)\<rparr>)"

text \<open>The rows of a day, in menu order: one for every menu entry with nonzero demand.\<close>

definition expectedDayItems ::
  "(string \<times> demand_entry) list \<Rightarrow> int \<Rightarrow> (string \<times> menu_item) list \<Rightarrow> nat
     \<Rightarrow> ForecastDayItem list" where
  "expectedDayItems dm now mm k =
     map (expectedItem dm now k)
       (filter (\<lambda>entry. todayDemandOf dm (fst entry) (dayAt now k) \<noteq> 0) mm)"

definition expectedDay ::
  "(string \<Rightarrow> string \<Rightarrow> int) \<Rightarrow> (string \<times> demand_entry) list \<Rightarrow> int
     \<Rightarrow> (string \<times> menu_item) list \<Rightarrow> nat \<Rightarrow> ForecastDay" where
  "expectedDay lc dm now mm k =
     \<lparr>fd_dayName = dayAt now k,
      items = sort_cmp (riskCmp lc) (expectedDayItems dm now mm k)\<rparr>"

text \<open>
  The display order of a day: a row with \<open>risk\<close> never follows a row without, and rows
  of equal \<open>risk\<close> are in the order of \<open>lc\<close> on their names.
\<close>

definition risk_first_then_name ::
  "(string \<Rightarrow> string \<Rightarrow> int) \<Rightarrow> ForecastDayItem \<Rightarrow> ForecastDayItem \<Rightarrow> bool" where
  "risk_first_then_name lc a b =
     ((risk a \<or> \<not> risk b) \<and> (risk a = risk b \<longrightarrow> lc (itemName a) (itemName b) \<le> 0))"

text \<open>The single-day demands of an item: the quantities of its aggregated entries.\<close>

definition itemQuantities :: "demand_entry list \<Rightarrow> string \<Rightarrow> int set" where
  "itemQuantities entries i = set (map totalQuantity (filter (\<lambda>e. de_itemId e = i) entries))"

text \<open>The same menu with the stock of one item replaced.\<close>

definition setStock :: "string \<Rightarrow> int \<Rightarrow> menu_doc \<Rightarrow> menu_doc" where
  "setStock i s d = (if md_id d = i then d\<lparr>md_quantity := Some s\<rparr> else d)"

definition setItemStock :: "string \<Rightarrow> int \<Rightarrow> string \<times> menu_item \<Rightarrow> string \<times> menu_item" where
  "setItemStock i s entry = (if fst entry = i then (fst entry, (snd entry)\<lparr>stock := s\<rparr>) else entry)"

section \<open>Auxiliary notions for the proofs\<close>

text \<open>The tracker read with \<^verbatim>\<open>|| 0\<close>, a row built from the tracker, and the tracker after a day.\<close>

definition get0 :: "(string \<rightharpoonup> int) \<Rightarrow> string \<Rightarrow> int" where
  "get0 tr i = (case tr i of None \<Rightarrow> 0 | Some v \<Rightarrow> v)"

definition stepItem ::
  "(string \<times> demand_entry) list \<Rightarrow> DayOfWeek \<Rightarrow> (string \<rightharpoonup> int) \<Rightarrow> string \<times> menu_item
     \<Rightarrow> ForecastDayItem" where
  "stepItem dm day tr entry =
     (case entry of (i, m) \<Rightarrow>
        \<lparr>itemId = i, itemName = mi_name m,
         demand = todayDemandOf dm i day,
         currentStock = stock m,
         cumulativeDemand = get0 tr i + todayDemandOf dm i day,
         remaining = stock m - (get0 tr i + todayDemandOf dm i day),
         risk = (stock m - (get0 tr i + todayDemandOf dm i day) < 0)\<rparr>)"

definition advance ::
  "(string \<times> demand_entry) list \<Rightarrow> DayOfWeek \<Rightarrow> (string \<times> menu_item) list
     \<Rightarrow> (string \<rightharpoonup> int) \<Rightarrow> (string \<rightharpoonup> int)" where
  "advance dm day ms tr =
     (\<lambda>i. if i \<in> fst ` set ms \<and> todayDemandOf dm i day \<noteq> 0
          then Some (get0 tr i + todayDemandOf dm i day) else tr i)"

text \<open>A demand map whose keys are distinct and are the keys of their entries.\<close>

definition keyed :: "(string \<times> demand_entry) list \<Rightarrow> bool" where
  "keyed dm \<longleftrightarrow>
     distinct (map fst dm) \<and> list_all (\<lambda>p. fst p = demandKey (de_itemId (snd p)) (de_day (snd p))) dm"

section \<open>Example data of the forecast\<close>

text \<open>
  A comparison on strings that is a consistent comparator (the order of the character
  codes), standing in for \<^verbatim>\<open>localeCompare\<close> at concrete inputs.
\<close>

definition codeCompare :: "string \<Rightarrow> string \<Rightarrow> int" where
  "codeCompare a b = (if a < b then - 1 else if a = b then 0 else 1)"

definition teaMenu :: "menu_doc list" where
  "teaMenu = [\<lparr>md_id = ''tea'', md_name = Some ''Tea'', md_quantity = Some 10\<rparr>]"

definition teaOrders :: "auto_order_doc list" where
  "teaOrders =
     [\<lparr>ao_id = ''o3'', ao_itemId = ''tea'', ao_itemName = None, ao_quantity = Some 4,
       ao_frequency = Some ''daily'', ao_customDays = None\<rparr>]"

definition snackMenu :: "menu_doc list" where
  "snackMenu =
     [\<lparr>md_id = ''tea'', md_name = Some ''Tea'', md_quantity = Some 10\<rparr>,
      \<lparr>md_id = ''samosa'', md_name = Some ''Samosa'', md_quantity = Some 2\<rparr>,
      \<lparr>md_id = ''chai'', md_name = Some ''Chai'', md_quantity = Some 50\<rparr>]"

definition snackOrders :: "auto_order_doc list" where
  "snackOrders =
     [\<lparr>ao_id = ''o4'', ao_itemId = ''tea'', ao_itemName = None, ao_quantity = Some 4,
       ao_frequency = Some ''daily'', ao_customDays = None\<rparr>,
      \<lparr>ao_id = ''o5'', ao_itemId = ''samosa'', ao_itemName = None, ao_quantity = Some 5,
       ao_frequency = Some ''daily'', ao_customDays = None\<rparr>,
      \<lparr>ao_id = ''o6'', ao_itemId = ''chai'', ao_itemName = None, ao_quantity = None,
       ao_frequency = Some ''daily'', ao_customDays = None\<rparr>]"

definition peakOrders :: "auto_order_doc list" where
  "peakOrders =
     [\<lparr>ao_id = ''o7'', ao_itemId = ''tea'', ao_itemName = None, ao_quantity = Some 4,
       ao_frequency = Some ''weekdays'', ao_customDays = None\<rparr>,
      \<lparr>ao_id = ''o8'', ao_itemId = ''tea'', ao_itemName = None, ao_quantity = Some 3,
       ao_frequency = Some ''custom'', ao_customDays = Some [Wed]\<rparr>]"

definition customWedMon :: auto_order_doc where
  "customWedMon =
     \<lparr>ao_id = ''o9'', ao_itemId = ''tea'', ao_itemName = None, ao_quantity = Some 3,
      ao_frequency = Some ''custom'', ao_customDays = Some [Wed, Mon]\<rparr>"

definition monthlyTea :: auto_order_doc where
  "monthlyTea =
     \<lparr>ao_id = ''o1'', ao_itemId = ''tea'', ao_itemName = None, ao_quantity = Some 3,
      ao_frequency = Some ''monthly'', ao_customDays = Some [Sat]\<rparr>"


definition teaCustomNoQuantity :: auto_order_doc where
  "teaCustomNoQuantity =
     \<lparr>ao_id = ''o10'', ao_itemId = ''tea'', ao_itemName = None, ao_quantity = None,
      ao_frequency = Some ''custom'', ao_customDays = Some [Wed, Mon]\<rparr>"

definition teaDaily :: auto_order_doc where
  "teaDaily =
     \<lparr>ao_id = ''o2'', ao_itemId = ''tea'', ao_itemName = None, ao_quantity = Some 0,
      ao_frequency = Some ''daily'', ao_customDays = None\<rparr>"

section \<open>Properties of the wallet ledger\<close>

subsection \<open>Commit and the initial writes\<close>

lemma commit_append:
  "commit st (xs @ ys) = (case commit st xs of Inl e \<Rightarrow> Inl e | Inr st' \<Rightarrow> commit st' ys)"
  by (induction xs arbitrary: st) (auto split: sum.splits)

lemma commit_walletInit:
  "commit st (walletInit (wallet st) now) = Inr (st\<lparr>wallet := Some (dayStart (wallet st) now)\<rparr>)"
  by (cases "wallet st")
     (auto simp: walletInit_def dayStart_def apply_update_def no_update_def)

subsection \<open>The status pairs\<close>

lemma set_activeStatuses: "set activeStatuses = {''confirmed'', ''preparing'', ''ready''}"
  by (simp add: activeStatuses_def)

lemma active_distinct:
  "x \<in> set activeStatuses \<Longrightarrow> x \<noteq> ''pending'' \<and> x \<noteq> ''completed'' \<and> x \<noteq> ''cancelled''"
  by (auto simp: activeStatuses_def)

lemma pending_not_active: "''pending'' \<notin> set activeStatuses"
  by (simp add: activeStatuses_def)

lemma completed_not_active: "''completed'' \<notin> set activeStatuses"
  by (simp add: activeStatuses_def)

lemma cancelled_not_active: "''cancelled'' \<notin> set activeStatuses"
  by (simp add: activeStatuses_def)

lemmas status_facts = pending_not_active completed_not_active cancelled_not_active

lemma tl_pending_active:
  "new \<in> set activeStatuses \<Longrightarrow>
   transitionLogic now ''pending'' new a oid =
     (no_update\<lparr>upd_lastUpdated := Some now, upd_pendingAmount := Some (Increment a)\<rparr>, None)"
  using active_distinct[of new]
  by (simp add: transitionLogic_def Let_def status_facts)

lemma tl_active_completed:
  "old \<in> set activeStatuses \<Longrightarrow>
   transitionLogic now old ''completed'' a oid =
     (no_update\<lparr>upd_lastUpdated := Some now, upd_pendingAmount := Some (Increment (- a)),
        upd_totalBalance := Some (Increment a), upd_todayCollection := Some (Increment a)\<rparr>,
      Some \<lparr>amount = a, txn_kind = credit, orderId = Some oid,
             description = ''Order Completed - #'' @ oid, createdAt = now\<rparr>)"
  using active_distinct[of old]
  by (simp add: transitionLogic_def Let_def status_facts)

lemma tl_pending_completed:
  "transitionLogic now ''pending'' ''completed'' a oid =
     (no_update\<lparr>upd_lastUpdated := Some now,
        upd_totalBalance := Some (Increment a), upd_todayCollection := Some (Increment a)\<rparr>,
      Some \<lparr>amount = a, txn_kind = credit, orderId = Some oid,
             description = ''Order Completed (Direct) - #'' @ oid, createdAt = now\<rparr>)"
  by (simp add: transitionLogic_def Let_def status_facts)

lemma tl_active_cancelled:
  "old \<in> set activeStatuses \<Longrightarrow>
   transitionLogic now old ''cancelled'' a oid =
     (no_update\<lparr>upd_lastUpdated := Some now, upd_pendingAmount := Some (Increment (- a))\<rparr>,
      None)"
  using active_distinct[of old]
  by (simp add: transitionLogic_def Let_def status_facts)

lemma tl_completed_cancelled:
  "transitionLogic now ''completed'' ''cancelled'' a oid =
     (no_update\<lparr>upd_lastUpdated := Some now, upd_totalBalance := Some (Increment (- a))\<rparr>,
      Some \<lparr>amount = a, txn_kind = refund_deduction, orderId = Some oid,
             description = ''Order Refunded - #'' @ oid, createdAt = now\<rparr>)"
  by (simp add: transitionLogic_def Let_def status_facts)

lemma tl_other:
  "\<not> (old = ''pending'' \<and> new \<in> set activeStatuses) \<Longrightarrow>
   \<not> (old \<in> set activeStatuses \<and> new = ''completed'') \<Longrightarrow>
   \<not> (old = ''pending'' \<and> new = ''completed'') \<Longrightarrow>
   \<not> (old \<in> set activeStatuses \<and> new = ''cancelled'') \<Longrightarrow>
   \<not> (old = ''completed'' \<and> new = ''cancelled'') \<Longrightarrow>
   transitionLogic now old new a oid = (no_update\<lparr>upd_lastUpdated := Some now\<rparr>, None)"
  by (auto simp: transitionLogic_def Let_def status_facts)

lemma table_pending_active:
  "new \<in> set activeStatuses \<Longrightarrow> spec_transition_table ''pending'' new = (1, 0, 0, None)"
  by (simp add: spec_transition_table_def set_activeStatuses)

lemma table_active_completed:
  "old \<in> set activeStatuses \<Longrightarrow>
   spec_transition_table old ''completed'' = (- 1, 1, 1, Some credit)"
  using active_distinct[of old]
  by (simp add: spec_transition_table_def set_activeStatuses)

lemma table_pending_completed:
  "spec_transition_table ''pending'' ''completed'' = (0, 1, 1, Some credit)"
  by (simp add: spec_transition_table_def)

lemma table_active_cancelled:
  "old \<in> set activeStatuses \<Longrightarrow>
   spec_transition_table old ''cancelled'' = (- 1, 0, 0, None)"
  using active_distinct[of old]
  by (simp add: spec_transition_table_def set_activeStatuses)

lemma table_completed_cancelled:
  "spec_transition_table ''completed'' ''cancelled'' = (0, - 1, 0, Some refund_deduction)"
  by (simp add: spec_transition_table_def)

lemma table_other:
  "\<not> (old = ''pending'' \<and> new \<in> set activeStatuses) \<Longrightarrow>
   \<not> (old \<in> set activeStatuses \<and> new = ''completed'') \<Longrightarrow>
   \<not> (old = ''pending'' \<and> new = ''completed'') \<Longrightarrow>
   \<not> (old \<in> set activeStatuses \<and> new = ''cancelled'') \<Longrightarrow>
   \<not> (old = ''completed'' \<and> new = ''cancelled'') \<Longrightarrow>
   spec_transition_table old new = (0, 0, 0, None)"
  unfolding spec_transition_table_def set_activeStatuses[symmetric]
  by simp

lemma status_pair_cases:
  obtains (r1) "old = ''pending''" "new \<in> set activeStatuses"
    | (r2) "old \<in> set activeStatuses" "new = ''completed''"
    | (r3) "old = ''pending''" "new = ''completed''"
    | (r4) "old \<in> set activeStatuses" "new = ''cancelled''"
    | (r5) "old = ''completed''" "new = ''cancelled''"
    | (r6) "\<not> (old = ''pending'' \<and> new \<in> set activeStatuses)"
           "\<not> (old \<in> set activeStatuses \<and> new = ''completed'')"
           "\<not> (old = ''pending'' \<and> new = ''completed'')"
           "\<not> (old \<in> set activeStatuses \<and> new = ''cancelled'')"
           "\<not> (old = ''completed'' \<and> new = ''cancelled'')"
  by blast

text \<open>
  The transition logic refines the table: whatever wallet the update object is applied
  to, each counter moves by the table's multiple of the amount, and the record is the
  table's log entry.
\<close>

lemma transitionLogic_table:
  assumes "transitionLogic now old new a oid = (u, r)"
    and "spec_transition_table old new = (pc, tc, dc, k)"
  shows "apply_field (upd_pendingAmount u) x = x + pc * a"
    and "apply_field (upd_totalBalance u) y = y + tc * a"
    and "apply_field (upd_todayCollection u) z = z + dc * a"
    and "upd_todayDate u = None"
    and "keys_length u > 1 \<or> (pc = 0 \<and> tc = 0 \<and> dc = 0)"
    and "case k of None \<Rightarrow> r = None
         | Some kd \<Rightarrow> (\<exists>e. r = Some e \<and> amount e = a \<and> txn_kind e = kd \<and>
                        orderId e = Some oid)"
proof -
  have "apply_field (upd_pendingAmount u) x = x + pc * a \<and>
        apply_field (upd_totalBalance u) y = y + tc * a \<and>
        apply_field (upd_todayCollection u) z = z + dc * a \<and>
        upd_todayDate u = None \<and>
        (keys_length u > 1 \<or> (pc = 0 \<and> tc = 0 \<and> dc = 0)) \<and>
        (case k of None \<Rightarrow> r = None
         | Some kd \<Rightarrow> (\<exists>e. r = Some e \<and> amount e = a \<and> txn_kind e = kd \<and>
                        orderId e = Some oid))"
  proof (cases old new rule: status_pair_cases)
    case r1
    with assms show ?thesis
      by (auto simp: tl_pending_active table_pending_active no_update_def keys_length_def)
  next
    case r2
    with assms show ?thesis
      by (auto simp: tl_active_completed table_active_completed no_update_def keys_length_def)
  next
    case r3
    with assms show ?thesis
      by (auto simp: tl_pending_completed table_pending_completed no_update_def keys_length_def)
  next
    case r4
    with assms show ?thesis
      by (auto simp: tl_active_cancelled table_active_cancelled no_update_def keys_length_def)
  next
    case r5
    with assms show ?thesis
      by (auto simp: tl_completed_cancelled table_completed_cancelled no_update_def
            keys_length_def)
  next
    case r6
    with assms show ?thesis
      by (auto simp: tl_other table_other no_update_def keys_length_def)
  qed
  then show "apply_field (upd_pendingAmount u) x = x + pc * a"
    and "apply_field (upd_totalBalance u) y = y + tc * a"
    and "apply_field (upd_todayCollection u) z = z + dc * a"
    and "upd_todayDate u = None"
    and "keys_length u > 1 \<or> (pc = 0 \<and> tc = 0 \<and> dc = 0)"
    and "case k of None \<Rightarrow> r = None
         | Some kd \<Rightarrow> (\<exists>e. r = Some e \<and> amount e = a \<and> txn_kind e = kd \<and>
                        orderId e = Some oid)"
    by simp_all
qed

text \<open>The store after a call that passes the guard, in terms of the transition logic.\<close>

lemma applyTransition_result:
  assumes "0 < a" and "old \<noteq> new"
    and "transitionLogic now old new a oid = (u, r)"
  shows "applyTransition st now old new a oid =
     (Inr (),
      st\<lparr>wallet := Some (if keys_length u > 1 then apply_update u (dayStart (wallet st) now)
                          else dayStart (wallet st) now),
         canteenTransactions :=
           canteenTransactions st @ (case r of None \<Rightarrow> [] | Some e \<Rightarrow> [e])\<rparr>)"
  using assms
  by (simp add: applyTransition_def runTransaction_def updateCanteenWallet_def
        commit_append commit_walletInit split: option.splits)

subsection \<open>The transition table\<close>

text \<open>
  Claim C1, as amended. For every call with a positive amount and distinct statuses the
  transaction commits, and relative to the wallet the call starts the day with
  (\<^const>\<open>dayStart\<close>: the stored wallet, created with zero counters when there is none,
  and with \<open>todayCollection\<close> reset to 0 when its date is not today's) the counters
  move by exactly the deltas of the transition table and the log gains exactly the
  table's entry: one \<open>credit\<close> entry of the amount on a completion, one
  \<open>refund_deduction\<close> entry when a completed order is cancelled, none otherwise.
  When the stored wallet carries today's date, \<^const>\<open>dayStart\<close> is the stored wallet.
\<close>

theorem transition_table_applied:
  assumes "0 < a" and "old \<noteq> new"
  shows "\<exists>st' w'.
     applyTransition st now old new a oid = (Inr (), st') \<and>
     wallet st' = Some w' \<and>
     withdrawals st' = withdrawals st \<and>
     (case spec_transition_table old new of (pc, tc, dc, k) \<Rightarrow>
        pendingAmount w' = pendingAmount (dayStart (wallet st) now) + pc * a \<and>
        totalBalance w' = totalBalance (dayStart (wallet st) now) + tc * a \<and>
        todayCollection w' = todayCollection (dayStart (wallet st) now) + dc * a \<and>
        todayDate w' = todayDate (dayStart (wallet st) now) \<and>
        (case k of
           None \<Rightarrow> canteenTransactions st' = canteenTransactions st
         | Some kd \<Rightarrow>
             (\<exists>e. canteenTransactions st' = canteenTransactions st @ [e] \<and>
                  amount e = a \<and> txn_kind e = kd \<and> orderId e = Some oid)))"
proof -
  obtain u r where ur: "transitionLogic now old new a oid = (u, r)"
    by (cases "transitionLogic now old new a oid")
  obtain pc tc dc k where tab: "spec_transition_table old new = (pc, tc, dc, k)"
    by (cases "spec_transition_table old new") auto
  note t = transitionLogic_table[OF ur tab]
  let ?b = "dayStart (wallet st) now"
  let ?w = "if keys_length u > 1 then apply_update u ?b else ?b"
  let ?st = "st\<lparr>wallet := Some ?w,
     canteenTransactions := canteenTransactions st @ (case r of None \<Rightarrow> [] | Some e \<Rightarrow> [e])\<rparr>"
  have run: "applyTransition st now old new a oid = (Inr (), ?st)"
    by (rule applyTransition_result[OF assms ur])
  have p: "pendingAmount ?w = pendingAmount ?b + pc * a"
    using t(1)[of "pendingAmount ?b"] t(5) by (auto simp: apply_update_def)
  have tb: "totalBalance ?w = totalBalance ?b + tc * a"
    using t(2)[of "totalBalance ?b"] t(5) by (auto simp: apply_update_def)
  have d: "todayCollection ?w = todayCollection ?b + dc * a"
    using t(3)[of "todayCollection ?b"] t(5) by (auto simp: apply_update_def)
  have dt: "todayDate ?w = todayDate ?b"
    using t(4) by (simp add: apply_update_def)
  have lg: "case k of
           None \<Rightarrow> canteenTransactions ?st = canteenTransactions st
         | Some kd \<Rightarrow>
             (\<exists>e. canteenTransactions ?st = canteenTransactions st @ [e] \<and>
                  amount e = a \<and> txn_kind e = kd \<and> orderId e = Some oid)"
    using t(6) by (cases k) auto
  have "wallet ?st = Some ?w" and "withdrawals ?st = withdrawals st"
    by simp_all
  with run p tb d dt lg tab show ?thesis
    by (intro exI[of _ ?st] exI[of _ ?w]) simp
qed

text \<open>
  The example of the specification: \<open>confirmed \<rightarrow> completed\<close> with amount 250 on a wallet
  with \<open>pendingAmount = 250\<close> and \<open>totalBalance = 1000\<close>, on the wallet's own day.
\<close>

theorem transition_table_applied_witness:
  "\<exists>st' w'.
     applyTransition exampleStore ''2024-01-02T10:15:00.000Z'' ''confirmed'' ''completed'' 250 ''A17''
       = (Inr (), st') \<and>
     wallet st' = Some w' \<and>
     pendingAmount w' = 0 \<and> totalBalance w' = 1250 \<and> todayCollection w' = 40 + 250 \<and>
     (\<exists>e. canteenTransactions st' = [e] \<and> amount e = 250 \<and> txn_kind e = credit)"
proof -
  have tab: "spec_transition_table ''confirmed'' ''completed'' = (- 1, 1, 1, Some credit)"
    by (simp add: spec_transition_table_def)
  have ds: "dayStart (wallet exampleStore) ''2024-01-02T10:15:00.000Z'' =
      \<lparr>totalBalance = 1000, pendingAmount = 250, todayCollection = 40,
       todayDate = ''2024-01-02'', lastUpdated = ''2024-01-02T08:00:00.000Z''\<rparr>"
    by (simp add: dayStart_def exampleStore_def isoDate_def)
  have ct: "canteenTransactions exampleStore = []"
    by (simp add: exampleStore_def)
  show ?thesis
    using transition_table_applied[where a = 250 and old = "''confirmed''"
        and new = "''completed''" and st = exampleStore and now = "''2024-01-02T10:15:00.000Z''"
        and oid = "''A17''"]
    unfolding tab ds ct
    by (simp only: prod.case option.case) auto
qed

text \<open>
  The claim as stated says that \<open>pending \<rightarrow> cancelled\<close> changes no counter. On a wallet
  whose stored date is not today's the call still queues the day rollover, so
  \<open>todayCollection\<close> goes from 500 to 0.
\<close>

theorem pending_cancelled_counterexample:
  "applyTransition staleStore ''2024-01-02T09:00:00.000Z'' ''pending'' ''cancelled'' 100 ''A1''
     = (Inr (),
        \<lparr>wallet = Some \<lparr>totalBalance = 0, pendingAmount = 0, todayCollection = 0,
           todayDate = ''2024-01-02'', lastUpdated = ''2024-01-01T18:30:00.000Z''\<rparr>,
         canteenTransactions = [], withdrawals = []\<rparr>) \<and>
   map_option todayCollection (wallet staleStore) = Some 500"
proof -
  have tl: "transitionLogic ''2024-01-02T09:00:00.000Z'' ''pending'' ''cancelled'' 100 ''A1''
      = (no_update\<lparr>upd_lastUpdated := Some ''2024-01-02T09:00:00.000Z''\<rparr>, None)"
    by (rule tl_other) (simp_all add: status_facts)
  show ?thesis
    by (simp add: applyTransition_def runTransaction_def updateCanteenWallet_def tl
          walletInit_def staleStore_def isoDate_def no_update_def keys_length_def
          apply_update_def)
qed

subsection \<open>Day rollover\<close>

lemma transitionLogic_today:
  assumes "transitionLogic now old new a oid = (u, r)"
  shows "apply_field (upd_todayCollection u) z =
           z + (if new = ''completed'' \<and> (old = ''pending'' \<or> old \<in> set activeStatuses)
                then a else 0)"
    and "upd_todayDate u = None"
proof -
  have "apply_field (upd_todayCollection u) z =
           z + (if new = ''completed'' \<and> (old = ''pending'' \<or> old \<in> set activeStatuses)
                then a else 0) \<and> upd_todayDate u = None"
  proof (cases old new rule: status_pair_cases)
    case r1
    with assms active_distinct[of new] show ?thesis
      by (auto simp: tl_pending_active no_update_def)
  next
    case r2
    with assms show ?thesis
      by (auto simp: tl_active_completed no_update_def)
  next
    case r3
    with assms show ?thesis
      by (auto simp: tl_pending_completed no_update_def)
  next
    case r4
    with assms show ?thesis
      by (auto simp: tl_active_cancelled no_update_def)
  next
    case r5
    with assms show ?thesis
      by (auto simp: tl_completed_cancelled no_update_def)
  next
    case r6
    with assms show ?thesis
      by (auto simp: tl_other no_update_def)
  qed
  then show "apply_field (upd_todayCollection u) z =
           z + (if new = ''completed'' \<and> (old = ''pending'' \<or> old \<in> set activeStatuses)
                then a else 0)"
    and "upd_todayDate u = None"
    by simp_all
qed

text \<open>
  Claim C3. When the stored date of the wallet differs from the current date, a call
  that passes the guard leaves the wallet with today's date and with
  \<open>todayCollection\<close> equal to 0 plus this transition's own contribution: the amount for
  a completion, nothing for any other transition.
\<close>

theorem day_rollover:
  assumes "0 < a" and "old \<noteq> new"
    and "wallet st = Some w" and "todayDate w \<noteq> isoDate now"
  shows "\<exists>st' w'.
     applyTransition st now old new a oid = (Inr (), st') \<and>
     wallet st' = Some w' \<and>
     todayDate w' = isoDate now \<and>
     todayCollection w' =
       0 + (if new = ''completed'' \<and> (old = ''pending'' \<or> old \<in> set activeStatuses)
            then a else 0)"
proof -
  obtain u r where ur: "transitionLogic now old new a oid = (u, r)"
    by (cases "transitionLogic now old new a oid")
  note t = transitionLogic_today[OF ur]
  let ?b = "dayStart (wallet st) now"
  let ?w = "if keys_length u > 1 then apply_update u ?b else ?b"
  have b: "todayCollection ?b = 0" "todayDate ?b = isoDate now"
    using assms(3,4) by (simp_all add: dayStart_def)
  have run: "applyTransition st now old new a oid =
     (Inr (), st\<lparr>wallet := Some ?w,
        canteenTransactions :=
          canteenTransactions st @ (case r of None \<Rightarrow> [] | Some e \<Rightarrow> [e])\<rparr>)"
    by (rule applyTransition_result[OF assms(1,2) ur])
  have upd: "todayCollection (apply_update u ?b) =
      0 + (if new = ''completed'' \<and> (old = ''pending'' \<or> old \<in> set activeStatuses)
           then a else 0)"
    "todayDate (apply_update u ?b) = isoDate now"
    using t(1)[of "todayCollection ?b"] t(2) b by (simp_all add: apply_update_def)
  have keys: "keys_length u > 1 \<or>
      \<not> (new = ''completed'' \<and> (old = ''pending'' \<or> old \<in> set activeStatuses))"
  proof (cases "new = ''completed'' \<and> (old = ''pending'' \<or> old \<in> set activeStatuses)")
    case True
    then have "upd_todayCollection u \<noteq> None"
      using t(1)[of 0] assms(1) by (cases "upd_todayCollection u") auto
    moreover have "upd_lastUpdated u \<noteq> None"
      using ur by (cases old new rule: status_pair_cases)
        (auto simp: tl_pending_active tl_active_completed tl_pending_completed
          tl_active_cancelled tl_completed_cancelled tl_other no_update_def)
    ultimately show ?thesis
      by (auto simp: keys_length_def)
  next
    case False
    then show ?thesis by simp
  qed
  have "todayDate ?w = isoDate now"
    using upd(2) b(2) by simp
  moreover have "todayCollection ?w =
      0 + (if new = ''completed'' \<and> (old = ''pending'' \<or> old \<in> set activeStatuses)
           then a else 0)"
    using upd(1) b(1) keys by auto
  ultimately show ?thesis
    using run by (intro exI[of _ "snd (applyTransition st now old new a oid)"] exI[of _ ?w]) simp
qed

theorem day_rollover_witness:
  "\<exists>st' w'.
     applyTransition staleStore ''2024-01-02T09:00:00.000Z'' ''ready'' ''completed'' 100 ''A2''
       = (Inr (), st') \<and>
     wallet st' = Some w' \<and> todayDate w' = ''2024-01-02'' \<and> todayCollection w' = 100"
proof -
  have w: "wallet staleStore = Some \<lparr>totalBalance = 0, pendingAmount = 0, todayCollection = 500,
         todayDate = ''2024-01-01'', lastUpdated = ''2024-01-01T18:30:00.000Z''\<rparr>"
    by (simp add: staleStore_def)
  have d: "isoDate ''2024-01-02T09:00:00.000Z'' = ''2024-01-02''"
    by (simp add: isoDate_def)
  have act: "''ready'' \<in> set activeStatuses"
    by (simp add: activeStatuses_def)
  show ?thesis
    using day_rollover[where a = 100 and old = "''ready''" and new = "''completed''"
        and st = staleStore and now = "''2024-01-02T09:00:00.000Z''" and oid = "''A2''",
        OF _ _ w]
    by (simp add: d act)
qed

subsection \<open>The guard\<close>

text \<open>
  Claim C4. A call with a non-positive amount, or with equal old and new status,
  queues no write: the transaction commits without error and the store (wallet
  counters and transaction log) is unchanged.
\<close>

theorem guard_noop:
  assumes "a \<le> 0 \<or> old = new"
  shows "updateCanteenWallet st now old new a oid = [] \<and>
         applyTransition st now old new a oid = (Inr (), st)"
  using assms by (auto simp: updateCanteenWallet_def applyTransition_def runTransaction_def)

theorem guard_noop_witness:
  "updateCanteenWallet staleStore ''2024-01-02T09:00:00.000Z'' ''pending'' ''confirmed'' 0 ''A3'' = [] \<and>
   applyTransition staleStore ''2024-01-02T09:00:00.000Z'' ''pending'' ''confirmed'' 0 ''A3''
     = (Inr (), staleStore) \<and>
   updateCanteenWallet staleStore ''2024-01-02T09:00:00.000Z'' ''ready'' ''ready'' 80 ''A4'' = [] \<and>
   applyTransition staleStore ''2024-01-02T09:00:00.000Z'' ''ready'' ''ready'' 80 ''A4''
     = (Inr (), staleStore)"
  using guard_noop[where a = 0 and old = "''pending''" and new = "''confirmed''"
      and st = staleStore and now = "''2024-01-02T09:00:00.000Z''" and oid = "''A3''"]
    guard_noop[where a = 80 and old = "''ready''" and new = "''ready''"
      and st = staleStore and now = "''2024-01-02T09:00:00.000Z''" and oid = "''A4''"]
  by simp

subsection \<open>Withdrawal\<close>

text \<open>
  Claim C2. For an admin request with a positive amount: without a wallet document the
  withdrawal fails with \<open>WalletNotFound\<close>; with one it fails with \<open>InsufficientFunds\<close>
  exactly when the amount exceeds \<open>totalBalance\<close>; a failure leaves the store
  unchanged; a success subtracts the amount from \<open>totalBalance\<close>, appends one
  \<open>withdrawal\<close> log entry and one withdrawal receipt. In every case \<open>pendingAmount\<close>
  and \<open>todayCollection\<close> are as before.
\<close>

theorem withdrawal_outcomes:
  assumes "isAdmin" and "0 < a"
  shows "(case wallet st of
            None \<Rightarrow> withdrawPOST isAdmin now a st = (Inl WalletNotFound, st)
          | Some w \<Rightarrow>
              (fst (withdrawPOST isAdmin now a st) = Inl InsufficientFunds) = (totalBalance w < a) \<and>
              (if totalBalance w < a
               then withdrawPOST isAdmin now a st = (Inl InsufficientFunds, st)
               else withdrawPOST isAdmin now a st =
                 (Inr (),
                  st\<lparr>wallet := Some (w\<lparr>totalBalance := totalBalance w - a, lastUpdated := now\<rparr>),
                     canteenTransactions := canteenTransactions st @
                       [\<lparr>amount = a, txn_kind = withdrawal, orderId = None,
                         description = ''Wallet Withdrawal'', createdAt = now\<rparr>],
                     withdrawals := withdrawals st @
                       [\<lparr>wd_amount = a, wd_status = ''completed'',
                         requestedAt = now, processedAt = now\<rparr>]\<rparr>))) \<and>
         map_option pendingAmount (wallet (snd (withdrawPOST isAdmin now a st)))
           = map_option pendingAmount (wallet st) \<and>
         map_option todayCollection (wallet (snd (withdrawPOST isAdmin now a st)))
           = map_option todayCollection (wallet st)"
proof (cases "wallet st")
  case None
  with assms show ?thesis
    by (simp add: withdrawPOST_def runTransaction_def withdrawBody_def)
next
  case (Some w)
  show ?thesis
  proof (cases "totalBalance w < a")
    case True
    with Some assms show ?thesis
      by (simp add: withdrawPOST_def runTransaction_def withdrawBody_def Let_def)
  next
    case False
    with Some assms have
      "withdrawPOST isAdmin now a st =
                 (Inr (),
                  st\<lparr>wallet := Some (w\<lparr>totalBalance := totalBalance w - a, lastUpdated := now\<rparr>),
                     canteenTransactions := canteenTransactions st @
                       [\<lparr>amount = a, txn_kind = withdrawal, orderId = None,
                         description = ''Wallet Withdrawal'', createdAt = now\<rparr>],
                     withdrawals := withdrawals st @
                       [\<lparr>wd_amount = a, wd_status = ''completed'',
                         requestedAt = now, processedAt = now\<rparr>]\<rparr>)"
      by (simp add: withdrawPOST_def runTransaction_def withdrawBody_def Let_def
            apply_update_def no_update_def)
    with Some False show ?thesis
      by simp
  qed
qed

theorem withdrawal_outcomes_witness:
  "withdrawPOST True ''2024-01-02T09:00:00.000Z'' 1001 exampleStore = (Inl InsufficientFunds, exampleStore) \<and>
   withdrawPOST True ''2024-01-02T09:00:00.000Z'' 1000 exampleStore =
     (Inr (),
      \<lparr>wallet = Some \<lparr>totalBalance = 0, pendingAmount = 250, todayCollection = 40,
             todayDate = ''2024-01-02'', lastUpdated = ''2024-01-02T09:00:00.000Z''\<rparr>,
       canteenTransactions =
         [\<lparr>amount = 1000, txn_kind = withdrawal, orderId = None,
           description = ''Wallet Withdrawal'', createdAt = ''2024-01-02T09:00:00.000Z''\<rparr>],
       withdrawals =
         [\<lparr>wd_amount = 1000, wd_status = ''completed'',
           requestedAt = ''2024-01-02T09:00:00.000Z'',
           processedAt = ''2024-01-02T09:00:00.000Z''\<rparr>]\<rparr>)"
  using withdrawal_outcomes[where isAdmin = True and a = 1001 and st = exampleStore
      and now = "''2024-01-02T09:00:00.000Z''"]
    withdrawal_outcomes[where isAdmin = True and a = 1000 and st = exampleStore
      and now = "''2024-01-02T09:00:00.000Z''"]
  by (simp add: exampleStore_def)

section \<open>Properties of the demand forecast\<close>

subsection \<open>Keys of the demand map\<close>

lemma length_dayName: "length (dayName d) = 3"
  by (cases d) simp_all

lemma dayName_inj: "dayName d = dayName d' \<Longrightarrow> d = d'"
  by (cases d; cases d'; simp)

lemma demandKey_inj: "demandKey i d = demandKey i' d' \<longleftrightarrow> i = i' \<and> d = d'"
proof
  assume eq: "demandKey i d = demandKey i' d'"
  have "length (''::'' @ dayName d) = length (''::'' @ dayName d')"
    by (simp add: length_dayName)
  with eq have "i = i' \<and> ''::'' @ dayName d = ''::'' @ dayName d'"
    unfolding demandKey_def using append_eq_append_conv by blast
  then show "i = i' \<and> d = d'"
    by (auto dest: dayName_inj)
qed simp

subsection \<open>Aggregated demand\<close>

lemma todayDemandOf_eq:
  "todayDemandOf dm i d =
     (case map_of dm (demandKey i d) of None \<Rightarrow> 0 | Some e \<Rightarrow> totalQuantity e)"
  by (simp add: todayDemandOf_def split: option.splits)

lemma todayDemandOf_addDemand:
  "todayDemandOf (addDemand ord day dm) i d =
     todayDemandOf dm i d + (if eo_itemId ord = i \<and> day = d then quantity ord else 0)"
  by (auto simp: todayDemandOf_eq addDemand_def Let_def AList.update_conv' demandKey_inj
      split: option.splits)

lemma todayDemandOf_days:
  "todayDemandOf (fold (addDemand ord) days dm) i d =
     todayDemandOf dm i d +
       (if eo_itemId ord = i then quantity ord * int (count_list days d) else 0)"
  by (induction days arbitrary: dm) (auto simp: todayDemandOf_addDemand algebra_simps)

lemma todayDemandOf_orders:
  "todayDemandOf (fold (\<lambda>ord dm. fold (addDemand ord) (scheduledDays ord) dm) orders dm) i d =
     todayDemandOf dm i d + (\<Sum>ord\<leftarrow>orders. orderDemand ord i d)"
  by (induction orders arbitrary: dm) (simp_all add: todayDemandOf_days orderDemand_def)

lemma todayDemandOf_demandMapOf:
  "todayDemandOf (demandMapOf orders) i d = (\<Sum>ord\<leftarrow>orders. orderDemand ord i d)"
  unfolding demandMapOf_def todayDemandOf_orders
  by (simp add: todayDemandOf_eq)

subsection \<open>Scheduled days\<close>

lemma sum_list_orderDemand_insert:
  "(\<Sum>ord\<leftarrow>os1 @ [x] @ os2. orderDemand ord i d) =
     (\<Sum>ord\<leftarrow>os1 @ os2. orderDemand ord i d) + orderDemand x i d"
  by simp

lemma todayDemandOf_insert_order:
  "todayDemandOf (demandMapOf (map (enrich mm) (pre @ [d] @ post))) i day =
     todayDemandOf (demandMapOf (map (enrich mm) (pre @ post))) i day +
       orderDemand (enrich mm d) i day"
proof -
  have "map (enrich mm) (pre @ [d] @ post) =
      map (enrich mm) pre @ [enrich mm d] @ map (enrich mm) post"
    by simp
  then have "todayDemandOf (demandMapOf (map (enrich mm) (pre @ [d] @ post))) i day =
      (\<Sum>ord\<leftarrow>map (enrich mm) pre @ map (enrich mm) post. orderDemand ord i day) +
        orderDemand (enrich mm d) i day"
    by (simp only: todayDemandOf_demandMapOf sum_list_orderDemand_insert)
  also have "(\<Sum>ord\<leftarrow>map (enrich mm) pre @ map (enrich mm) post. orderDemand ord i day) =
      todayDemandOf (demandMapOf (map (enrich mm) (pre @ post))) i day"
    by (simp only: todayDemandOf_demandMapOf map_append)
  finally show ?thesis .
qed

lemma quantity_enrich_nonzero: "quantity (enrich mm d) \<noteq> 0"
  by (simp add: enrich_def split: option.splits)

lemma scheduledDays_enrich:
  "scheduledDays (enrich mm d) = getScheduledDays (ao_frequency d) (ao_customDays d)"
  by (simp add: enrich_def)

lemma getScheduledDays_daily:
  "set (getScheduledDays (Some ''daily'') days) = {Mon, Tue, Wed, Thu, Fri, Sat, Sun}"
  by (simp add: getScheduledDays_def ALL_DAYS_def)

lemma getScheduledDays_weekdays:
  "set (getScheduledDays (Some ''weekdays'') days) = {Mon, Tue, Wed, Thu, Fri}"
  by (simp add: getScheduledDays_def WEEKDAYS_def)

lemma getScheduledDays_custom:
  "set (getScheduledDays (Some ''custom'') days) =
     (case days of Some ds \<Rightarrow> set ds | None \<Rightarrow> {})"
  by (simp add: getScheduledDays_def split: option.splits)

lemma getScheduledDays_other:
  "f \<noteq> Some ''daily'' \<Longrightarrow> f \<noteq> Some ''weekdays'' \<Longrightarrow> f \<noteq> Some ''custom'' \<Longrightarrow>
   getScheduledDays f days = []"
  by (simp add: getScheduledDays_def)

lemma set_getScheduledDays:
  "set (getScheduledDays f days) =
     (if f = Some ''daily'' then {Mon, Tue, Wed, Thu, Fri, Sat, Sun}
      else if f = Some ''weekdays'' then {Mon, Tue, Wed, Thu, Fri}
      else if f = Some ''custom'' then (case days of Some ds \<Rightarrow> set ds | None \<Rightarrow> {})
      else {})"
  using getScheduledDays_daily[of days] getScheduledDays_weekdays[of days]
    getScheduledDays_custom[of days] getScheduledDays_other[of f days]
  by (metis empty_set)

lemma demandMapOf_no_days:
  "scheduledDays (enrich mm d) = [] \<Longrightarrow>
   demandMapOf (map (enrich mm) (pre @ [d] @ post)) = demandMapOf (map (enrich mm) (pre @ post))"
  by (simp add: demandMapOf_def)

text \<open>
  Claim C6. For every auto-order, the weekdays on which it changes the aggregated demand
  of its item are exactly its scheduled days, and these are resolved from its
  frequency: \<open>daily\<close> gives all seven days, \<open>weekdays\<close> gives Monday to Friday, \<open>custom\<close>
  gives the set of the custom days provided (none when there is no array), and any
  other or missing frequency gives no day. The order never changes the demand of
  another item, and with an unrecognised frequency the demand map is the one computed
  without the order.
\<close>

theorem scheduled_days_resolution:
  "{day. todayDemandOf (demandMapOf (map (enrich mm) (pre @ [d] @ post))) (ao_itemId d) day \<noteq>
         todayDemandOf (demandMapOf (map (enrich mm) (pre @ post))) (ao_itemId d) day} =
     set (scheduledDays (enrich mm d)) \<and>
   set (scheduledDays (enrich mm d)) =
     (if ao_frequency d = Some ''daily'' then {Mon, Tue, Wed, Thu, Fri, Sat, Sun}
      else if ao_frequency d = Some ''weekdays'' then {Mon, Tue, Wed, Thu, Fri}
      else if ao_frequency d = Some ''custom''
        then (case ao_customDays d of Some ds \<Rightarrow> set ds | None \<Rightarrow> {})
      else {}) \<and>
   (i \<noteq> ao_itemId d \<longrightarrow>
      todayDemandOf (demandMapOf (map (enrich mm) (pre @ [d] @ post))) i day =
      todayDemandOf (demandMapOf (map (enrich mm) (pre @ post))) i day) \<and>
   (ao_frequency d \<noteq> Some ''daily'' \<and> ao_frequency d \<noteq> Some ''weekdays'' \<and>
    ao_frequency d \<noteq> Some ''custom'' \<longrightarrow>
      scheduledDays (enrich mm d) = [] \<and>
      demandMapOf (map (enrich mm) (pre @ [d] @ post)) =
        demandMapOf (map (enrich mm) (pre @ post)))"
proof -
  have contrib: "(todayDemandOf (demandMapOf (map (enrich mm) (pre @ [d] @ post))) (ao_itemId d) x \<noteq>
       todayDemandOf (demandMapOf (map (enrich mm) (pre @ post))) (ao_itemId d) x) =
      (x \<in> set (scheduledDays (enrich mm d)))" for x
  proof -
    have "orderDemand (enrich mm d) (ao_itemId d) x =
        quantity (enrich mm d) * int (count_list (scheduledDays (enrich mm d)) x)"
      by (simp add: orderDemand_def enrich_def)
    then have "(orderDemand (enrich mm d) (ao_itemId d) x \<noteq> 0) =
        (x \<in> set (scheduledDays (enrich mm d)))"
      using quantity_enrich_nonzero[of mm d] by (simp add: count_list_0_iff)
    then show ?thesis
      unfolding todayDemandOf_insert_order by simp
  qed
  have days: "{day. todayDemandOf (demandMapOf (map (enrich mm) (pre @ [d] @ post)))
          (ao_itemId d) day \<noteq>
         todayDemandOf (demandMapOf (map (enrich mm) (pre @ post))) (ao_itemId d) day} =
     set (scheduledDays (enrich mm d))"
    using contrib by blast
  have other: "i \<noteq> ao_itemId d \<longrightarrow>
      todayDemandOf (demandMapOf (map (enrich mm) (pre @ [d] @ post))) i day =
      todayDemandOf (demandMapOf (map (enrich mm) (pre @ post))) i day"
    unfolding todayDemandOf_insert_order by (simp add: orderDemand_def enrich_def)
  have none: "ao_frequency d \<noteq> Some ''daily'' \<and> ao_frequency d \<noteq> Some ''weekdays'' \<and>
    ao_frequency d \<noteq> Some ''custom'' \<longrightarrow>
      scheduledDays (enrich mm d) = [] \<and>
      demandMapOf (map (enrich mm) (pre @ [d] @ post)) =
        demandMapOf (map (enrich mm) (pre @ post))"
  proof
    assume "ao_frequency d \<noteq> Some ''daily'' \<and> ao_frequency d \<noteq> Some ''weekdays'' \<and>
      ao_frequency d \<noteq> Some ''custom''"
    then have "scheduledDays (enrich mm d) = []"
      by (simp add: scheduledDays_enrich getScheduledDays_def)
    then show "scheduledDays (enrich mm d) = [] \<and>
      demandMapOf (map (enrich mm) (pre @ [d] @ post)) =
        demandMapOf (map (enrich mm) (pre @ post))"
      using demandMapOf_no_days[of mm d pre post] by blast
  qed
  have sets: "set (scheduledDays (enrich mm d)) =
     (if ao_frequency d = Some ''daily'' then {Mon, Tue, Wed, Thu, Fri, Sat, Sun}
      else if ao_frequency d = Some ''weekdays'' then {Mon, Tue, Wed, Thu, Fri}
      else if ao_frequency d = Some ''custom''
        then (case ao_customDays d of Some ds \<Rightarrow> set ds | None \<Rightarrow> {})
      else {})"
    unfolding scheduledDays_enrich by (rule set_getScheduledDays)
  from days sets other none show ?thesis
    by (intro conjI)
qed

text \<open>
  An order on the custom days Wednesday and Monday, and one with the frequency
  \<open>monthly\<close>.
\<close>

theorem scheduled_days_resolution_witness:
  "{day. todayDemandOf (demandMapOf (map (enrich []) ([] @ [customWedMon] @ []))) ''tea'' day \<noteq>
         todayDemandOf (demandMapOf (map (enrich []) ([] @ []))) ''tea'' day} = {Wed, Mon} \<and>
   set (scheduledDays (enrich [] customWedMon)) = {Wed, Mon} \<and>
   scheduledDays (enrich [] monthlyTea) = [] \<and>
   demandMapOf (map (enrich []) ([] @ [monthlyTea] @ [])) = demandMapOf (map (enrich []) ([] @ []))"
  using scheduled_days_resolution[where d = customWedMon and mm = "[]" and pre = "[]"
      and post = "[]" and i = "''milk''" and day = Mon]
    scheduled_days_resolution[where d = monthlyTea and mm = "[]" and pre = "[]"
      and post = "[]" and i = "''milk''" and day = Mon]
  by (simp add: customWedMon_def monthlyTea_def)

subsection \<open>Sorting\<close>

lemma mset_insort_cmp: "mset (insort_cmp cmp x xs) = add_mset x (mset xs)"
  by (induction xs) simp_all

lemma mset_sort_cmp: "mset (sort_cmp cmp xs) = mset xs"
  by (induction xs) (simp_all add: sort_cmp_def mset_insort_cmp)

lemma set_sort_cmp: "set (sort_cmp cmp xs) = set xs"
  using mset_sort_cmp[of cmp xs] by (metis set_mset_mset)

lemma length_sort_cmp: "length (sort_cmp cmp xs) = length xs"
  using mset_sort_cmp[of cmp xs] by (metis size_mset)

subsection \<open>The loop over the menu\<close>

lemma dayItemStep_skip:
  "todayDemandOf dm i day = 0 \<Longrightarrow> dayItemStep dm day (i, m) (acc, tr) = (acc, tr)"
  by (simp add: dayItemStep_def)

lemma dayItemStep_add:
  "todayDemandOf dm i day \<noteq> 0 \<Longrightarrow>
   dayItemStep dm day (i, m) (acc, tr) =
     (acc @ [stepItem dm day tr (i, m)], tr(i \<mapsto> get0 tr i + todayDemandOf dm i day))"
  by (simp add: dayItemStep_def stepItem_def get0_def Let_def split: option.splits)

lemma fold_dayItemStep:
  assumes "distinct (map fst ms)"
  shows "fold (dayItemStep dm day) ms (acc, tr) =
     (acc @ map (stepItem dm day tr)
              (filter (\<lambda>entry. todayDemandOf dm (fst entry) day \<noteq> 0) ms),
      advance dm day ms tr)"
  using assms
proof (induction ms arbitrary: acc tr)
  case Nil
  then show ?case by (simp add: advance_def)
next
  case (Cons e ms)
  obtain i m where e: "e = (i, m)" by (cases e)
  from Cons.prems e have fresh: "i \<notin> fst ` set ms" and dist: "distinct (map fst ms)"
    by auto
  show ?case
  proof (cases "todayDemandOf dm i day = 0")
    case True
    have "advance dm day ms tr = advance dm day (e # ms) tr"
      using True by (auto simp: advance_def e fun_eq_iff)
    then show ?thesis
      using True Cons.IH[OF dist] by (simp add: e dayItemStep_skip)
  next
    case False
    let ?tr = "tr(i \<mapsto> get0 tr i + todayDemandOf dm i day)"
    have same: "stepItem dm day ?tr x = stepItem dm day tr x" if "x \<in> set ms" for x
    proof -
      from that fresh have "fst x \<noteq> i" by force
      then show ?thesis
        by (cases x) (simp add: stepItem_def get0_def)
    qed
    have m: "map (stepItem dm day ?tr)
               (filter (\<lambda>entry. todayDemandOf dm (fst entry) day \<noteq> 0) ms) =
             map (stepItem dm day tr)
               (filter (\<lambda>entry. todayDemandOf dm (fst entry) day \<noteq> 0) ms)"
      by (rule map_cong) (auto intro: same)
    have a: "advance dm day ms ?tr = advance dm day (e # ms) tr"
      using fresh False by (auto simp: advance_def e fun_eq_iff get0_def)
    have "fold (dayItemStep dm day) (e # ms) (acc, tr) =
        fold (dayItemStep dm day) ms (acc @ [stepItem dm day tr (i, m)], ?tr)"
      by (simp only: e fold_simps dayItemStep_add[OF False])
    also have "\<dots> =
        ((acc @ [stepItem dm day tr (i, m)]) @ map (stepItem dm day ?tr)
              (filter (\<lambda>entry. todayDemandOf dm (fst entry) day \<noteq> 0) ms),
         advance dm day ms ?tr)"
      by (rule Cons.IH[OF dist])
    also have "\<dots> =
        (acc @ map (stepItem dm day tr)
              (filter (\<lambda>entry. todayDemandOf dm (fst entry) day \<noteq> 0) (e # ms)),
         advance dm day (e # ms) tr)"
      unfolding m a using False by (simp add: e)
    finally show ?thesis .
  qed
qed

lemma get0_advance:
  "get0 (advance dm day ms tr) i =
     get0 tr i + (if i \<in> fst ` set ms then todayDemandOf dm i day else 0)"
  by (simp add: advance_def get0_def)

subsection \<open>The loop over the offsets\<close>

lemma cumulativeUpTo_Suc:
  "cumulativeUpTo dm now i (Suc k) =
     cumulativeUpTo dm now i k + todayDemandOf dm i (dayAt now (Suc k))"
  by (simp add: cumulativeUpTo_def)

lemma cumulativeUpTo_0: "cumulativeUpTo dm now i 0 = todayDemandOf dm i (dayAt now 0)"
  by (simp add: cumulativeUpTo_def)

lemma forecastStep_eq:
  assumes "distinct (map fst mm)"
    and "\<And>i. i \<in> fst ` set mm \<Longrightarrow>
           get0 tr i + todayDemandOf dm i (dayAt now k) = cumulativeUpTo dm now i k"
  shows "forecastStep lc now mm dm k (fc, tr) =
     (fc @ [expectedDay lc dm now mm k], advance dm (dayAt now k) mm tr)"
proof -
  have "stepItem dm (dayAt now k) tr x = expectedItem dm now k x"
    if "x \<in> set mm" for x
  proof -
    from that have "fst x \<in> fst ` set mm"
      by (rule imageI)
    from assms(2)[OF this] show ?thesis
      by (cases x) (simp add: stepItem_def expectedItem_def)
  qed
  then have "map (stepItem dm (dayAt now k) tr)
        (filter (\<lambda>entry. todayDemandOf dm (fst entry) (dayAt now k) \<noteq> 0) mm) =
      expectedDayItems dm now mm k"
    unfolding expectedDayItems_def by (intro map_cong) auto
  then show ?thesis
    unfolding forecastStep_def Let_def dayAt_def[symmetric]
    by (simp add: fold_dayItemStep[OF assms(1)] expectedDay_def)
qed

lemma fold_forecastStep:
  assumes "distinct (map fst mm)"
  shows "\<exists>tr. fold (forecastStep lc now mm dm) [0..<n] ([], Map.empty) =
           (map (expectedDay lc dm now mm) [0..<n], tr) \<and>
         (\<forall>i \<in> fst ` set mm.
            get0 tr i + todayDemandOf dm i (dayAt now n) = cumulativeUpTo dm now i n)"
proof (induction n)
  case 0
  show ?case
    by (simp add: get0_def cumulativeUpTo_0)
next
  case (Suc n)
  then obtain tr where
    f: "fold (forecastStep lc now mm dm) [0..<n] ([], Map.empty) =
          (map (expectedDay lc dm now mm) [0..<n], tr)"
    and inv: "\<And>i. i \<in> fst ` set mm \<Longrightarrow>
          get0 tr i + todayDemandOf dm i (dayAt now n) = cumulativeUpTo dm now i n"
    by blast
  have step: "fold (forecastStep lc now mm dm) [0..<Suc n] ([], Map.empty) =
      (map (expectedDay lc dm now mm) [0..<Suc n], advance dm (dayAt now n) mm tr)"
    using forecastStep_eq[OF assms inv, of lc "map (expectedDay lc dm now mm) [0..<n]"]
    by (simp add: f)
  have "get0 (advance dm (dayAt now n) mm tr) i + todayDemandOf dm i (dayAt now (Suc n)) =
      cumulativeUpTo dm now i (Suc n)" if "i \<in> fst ` set mm" for i
    using that inv[OF that] by (simp add: get0_advance cumulativeUpTo_Suc)
  with step show ?case
    by blast
qed

lemma forecastOf_eq:
  assumes "distinct (map fst mm)"
  shows "forecastOf lc now mm dm = map (expectedDay lc dm now mm) [0..<7]"
  using fold_forecastStep[OF assms, of lc now dm 7]
  by (auto simp: forecastOf_def)

lemma distinct_menuMapOf: "distinct (map fst (menuMapOf docs))"
proof -
  have "distinct (map fst acc) \<Longrightarrow>
      distinct (map fst (fold (\<lambda>d m. AList.update (md_id d)
             \<lparr>mi_id = md_id d,
              mi_name = strOr (md_name d) ''Unknown'',
              stock = (case md_quantity d of None \<Rightarrow> 0 | Some q \<Rightarrow> q)\<rparr> m) docs acc))"
    for acc :: "(string \<times> menu_item) list"
    by (induction docs arbitrary: acc) (simp_all add: AList.distinct_update)
  from this[of "[]"] show ?thesis
    by (simp add: menuMapOf_def)
qed

lemma forecast_computeForecast:
  "forecast (computeForecast lc now ords mds) =
     map (expectedDay lc (demandMapOf (map (enrich (menuMapOf mds)) ords)) now (menuMapOf mds))
       [0..<7]"
  by (simp add: computeForecast_def Let_def forecastOf_eq[OF distinct_menuMapOf])


subsection \<open>Orders without a quantity\<close>


lemma count_list_ALL_DAYS: "count_list ALL_DAYS day = 1"
  by (cases day) (simp_all add: ALL_DAYS_def)

lemma count_list_distinct: "distinct xs \<Longrightarrow> x \<in> set xs \<Longrightarrow> count_list xs x = 1"
  by (induction xs) auto

lemma distinct_getScheduledDays:
  assumes "\<And>ds. cd = Some ds \<Longrightarrow> distinct ds"
  shows "distinct (getScheduledDays f cd)"
  using assms
  by (auto simp: getScheduledDays_def ALL_DAYS_def WEEKDAYS_def split: option.splits)

text \<open>
  Claim C10. An auto-order whose quantity is absent or zero is not dropped: it is kept
  with quantity 1 and adds exactly one unit to the aggregated demand of its item on
  every one of its scheduled days, and nothing on any other day; with an unrecognised
  frequency it has no scheduled day. The custom days are a set of weekdays: a list that
  names no day twice.
\<close>

theorem falsy_quantity_counts_one:
  assumes "ao_quantity d = None \<or> ao_quantity d = Some 0"
    and "\<And>ds. ao_customDays d = Some ds \<Longrightarrow> distinct ds"
  shows "quantity (enrich mm d) = 1 \<and>
     enrich mm d \<in> set (map (enrich mm) (pre @ [d] @ post)) \<and>
     todayDemandOf (demandMapOf (map (enrich mm) (pre @ [d] @ post))) (ao_itemId d) day =
       todayDemandOf (demandMapOf (map (enrich mm) (pre @ post))) (ao_itemId d) day +
         (if day \<in> set (scheduledDays (enrich mm d)) then 1 else 0)"
proof -
  have q: "quantity (enrich mm d) = 1"
    using assms(1) by (auto simp: enrich_def)
  have "distinct (scheduledDays (enrich mm d))"
    unfolding scheduledDays_enrich by (rule distinct_getScheduledDays) (rule assms(2))
  then have "int (count_list (scheduledDays (enrich mm d)) day) =
      (if day \<in> set (scheduledDays (enrich mm d)) then 1 else 0)"
    by (simp add: count_list_distinct)
  then have "orderDemand (enrich mm d) (ao_itemId d) day =
      (if day \<in> set (scheduledDays (enrich mm d)) then 1 else 0)"
    unfolding orderDemand_def q by (simp add: enrich_def)
  with q show ?thesis
    unfolding todayDemandOf_insert_order by simp
qed

theorem falsy_quantity_counts_one_witness:
  "quantity (enrich [] teaDaily) = 1 \<and>
   todayDemandOf (demandMapOf (map (enrich []) ([] @ [teaDaily] @ []))) ''tea'' Wed =
     todayDemandOf (demandMapOf (map (enrich []) ([] @ []))) ''tea'' Wed + 1 \<and>
   quantity (enrich [] teaCustomNoQuantity) = 1 \<and>
   todayDemandOf (demandMapOf (map (enrich []) ([teaDaily] @ [teaCustomNoQuantity] @ [])))
       ''tea'' Mon =
     todayDemandOf (demandMapOf (map (enrich []) ([teaDaily] @ []))) ''tea'' Mon + 1 \<and>
   todayDemandOf (demandMapOf (map (enrich []) ([teaDaily] @ [teaCustomNoQuantity] @ [])))
       ''tea'' Tue =
     todayDemandOf (demandMapOf (map (enrich []) ([teaDaily] @ []))) ''tea'' Tue + 0"
proof -
  have d: "distinct [Wed, Mon]"
    by simp
  have s1: "scheduledDays (enrich [] teaDaily) = ALL_DAYS"
    by (simp add: teaDaily_def enrich_def getScheduledDays_def)
  have s2: "scheduledDays (enrich [] teaCustomNoQuantity) = [Wed, Mon]"
    by (simp add: teaCustomNoQuantity_def enrich_def getScheduledDays_def)
  have i1: "ao_itemId teaDaily = ''tea''" "ao_quantity teaDaily = Some 0"
    "ao_customDays teaDaily = None"
    by (simp_all add: teaDaily_def)
  have i2: "ao_itemId teaCustomNoQuantity = ''tea''" "ao_quantity teaCustomNoQuantity = None"
    "ao_customDays teaCustomNoQuantity = Some [Wed, Mon]"
    by (simp_all add: teaCustomNoQuantity_def)
  show ?thesis
    using falsy_quantity_counts_one[where d = teaDaily and mm = "[]" and pre = "[]"
        and post = "[]" and day = Wed]
      falsy_quantity_counts_one[where d = teaCustomNoQuantity and mm = "[]"
        and pre = "[teaDaily]" and post = "[]" and day = Mon]
      falsy_quantity_counts_one[where d = teaCustomNoQuantity and mm = "[]"
        and pre = "[teaDaily]" and post = "[]" and day = Tue]
    unfolding s1 s2 i1 i2
    by (simp add: ALL_DAYS_def)
qed

subsection \<open>The seven-day walk\<close>

lemma nth_forecast:
  "k < 7 \<Longrightarrow>
   forecast (computeForecast lc now ords mds) ! k =
     expectedDay lc (demandMapOf (map (enrich (menuMapOf mds)) ords)) now (menuMapOf mds) k"
  by (simp add: forecast_computeForecast del: upt_Suc)


text \<open>
  The index into \<^verbatim>\<open>DAY_MAP\<close> is always in range, and the weekday of the day at
  offset \<open>k\<close> is \<open>k\<close> days after the weekday of the reference date.
\<close>

lemma getUTCDay_lt_7: "getUTCDay ms < 7"
  by (simp add: getUTCDay_def)




lemma tea_menuMap:
  "menuMapOf teaMenu = [(''tea'', \<lparr>mi_id = ''tea'', mi_name = ''Tea'', stock = 10\<rparr>)]"
  by (simp add: menuMapOf_def teaMenu_def strOr_def)

lemma tea_demand:
  "todayDemandOf (demandMapOf (map (enrich mm) teaOrders)) ''tea'' d = 4"
  by (simp add: todayDemandOf_demandMapOf orderDemand_def teaOrders_def enrich_def
        getScheduledDays_def count_list_ALL_DAYS)

lemma tea_cumulative:
  "cumulativeUpTo (demandMapOf (map (enrich mm) teaOrders)) now ''tea'' k = 4 * (int k + 1)"
  by (simp add: cumulativeUpTo_def tea_demand sum_list_triv del: upt_Suc)

lemma tea_expected:
  "expectedDayItems (demandMapOf (map (enrich (menuMapOf teaMenu)) teaOrders)) now
     (menuMapOf teaMenu) k =
     [\<lparr>itemId = ''tea'', itemName = ''Tea'', demand = 4, currentStock = 10,
       cumulativeDemand = 4 * (int k + 1), remaining = 10 - 4 * (int k + 1),
       risk = (10 - 4 * (int k + 1) < 0)\<rparr>]"
  by (simp add: expectedDayItems_def expectedItem_def tea_menuMap tea_demand tea_cumulative)



subsection \<open>Order of a day's items\<close>

lemma sorted_insort_cmp:
  assumes total: "\<And>a b. cmp a b \<le> 0 \<or> cmp b a \<le> 0"
    and trans: "\<And>a b c. cmp a b \<le> 0 \<Longrightarrow> cmp b c \<le> 0 \<Longrightarrow> cmp a c \<le> 0"
  shows "sorted_wrt (\<lambda>a b. cmp a b \<le> 0) xs \<Longrightarrow>
         sorted_wrt (\<lambda>a b. cmp a b \<le> 0) (insort_cmp cmp x xs)"
proof (induction xs)
  case Nil
  then show ?case by simp
next
  case (Cons y ys)
  show ?case
  proof (cases "cmp x y \<le> 0")
    case True
    with Cons.prems trans show ?thesis
      by auto
  next
    case False
    with total have yx: "cmp y x \<le> 0"
      by blast
    have "set (insort_cmp cmp x ys) = insert x (set ys)"
      using mset_insort_cmp[of cmp x ys] by (metis set_mset_mset set_mset_add_mset_insert)
    with False yx Cons show ?thesis
      by auto
  qed
qed

lemma sorted_sort_cmp:
  assumes "\<And>a b. cmp a b \<le> 0 \<or> cmp b a \<le> 0"
    and "\<And>a b c. cmp a b \<le> 0 \<Longrightarrow> cmp b c \<le> 0 \<Longrightarrow> cmp a c \<le> 0"
  shows "sorted_wrt (\<lambda>a b. cmp a b \<le> 0) (sort_cmp cmp xs)"
proof (induction xs)
  case Nil
  then show ?case by (simp add: sort_cmp_def)
next
  case (Cons x xs)
  then show ?case
    using sorted_insort_cmp[of cmp, OF assms] by (simp add: sort_cmp_def)
qed

lemma riskCmp_le: "riskCmp lc a b \<le> 0 \<longleftrightarrow> risk_first_then_name lc a b"
  by (auto simp: riskCmp_def risk_first_then_name_def)

text \<open>
  Claim C8. With a consistent name comparison, the items of every forecast day are in
  risk-first order: no row without risk precedes a row with risk, and rows of equal
  risk are sorted by name.
\<close>

theorem risk_first_order:
  assumes anti: "\<And>a b. (lc a b < 0) = (0 < lc b a)"
    and trans: "\<And>a b c. lc a b \<le> 0 \<Longrightarrow> lc b c \<le> 0 \<Longrightarrow> lc a c \<le> 0"
    and "k < 7"
  shows "sorted_wrt (risk_first_then_name lc)
           (items (forecast (computeForecast lc now ords mds) ! k))"
proof -
  have total: "lc a b \<le> 0 \<or> lc b a \<le> 0" for a b
    using anti[of a b] anti[of b a] by linarith
  have rtotal: "riskCmp lc a b \<le> 0 \<or> riskCmp lc b a \<le> 0" for a b
    using total[of "itemName a" "itemName b"] by (auto simp: riskCmp_def)
  have rtrans: "riskCmp lc a c \<le> 0" if "riskCmp lc a b \<le> 0" "riskCmp lc b c \<le> 0" for a b c
    using that trans[of "itemName a" "itemName b" "itemName c"]
    by (auto simp: riskCmp_def split: if_splits)
  have "sorted_wrt (\<lambda>a b. riskCmp lc a b \<le> 0) (sort_cmp (riskCmp lc) xs)" for xs
    by (rule sorted_sort_cmp[OF rtotal rtrans])
  then have "sorted_wrt (risk_first_then_name lc) (sort_cmp (riskCmp lc) xs)" for xs
    by (simp add: riskCmp_le)
  then show ?thesis
    using \<open>k < 7\<close> by (simp add: nth_forecast expectedDay_def)
qed

lemma codeCompare_anti: "(codeCompare a b < 0) = (0 < codeCompare b a)"
  by (auto simp: codeCompare_def)

lemma codeCompare_trans:
  "codeCompare a b \<le> 0 \<Longrightarrow> codeCompare b c \<le> 0 \<Longrightarrow> codeCompare a c \<le> 0"
  by (auto simp: codeCompare_def split: if_splits)

lemma snack_menuMap:
  "menuMapOf snackMenu =
     [(''tea'', \<lparr>mi_id = ''tea'', mi_name = ''Tea'', stock = 10\<rparr>),
      (''samosa'', \<lparr>mi_id = ''samosa'', mi_name = ''Samosa'', stock = 2\<rparr>),
      (''chai'', \<lparr>mi_id = ''chai'', mi_name = ''Chai'', stock = 50\<rparr>)]"
  by (simp add: menuMapOf_def snackMenu_def strOr_def)

lemma snack_demand:
  "todayDemandOf (demandMapOf (map (enrich mm) snackOrders)) ''tea'' d = 4"
  "todayDemandOf (demandMapOf (map (enrich mm) snackOrders)) ''samosa'' d = 5"
  "todayDemandOf (demandMapOf (map (enrich mm) snackOrders)) ''chai'' d = 1"
  by (simp_all add: todayDemandOf_demandMapOf orderDemand_def snackOrders_def enrich_def
        getScheduledDays_def count_list_ALL_DAYS)

lemma snack_day0:
  "items (forecast (computeForecast codeCompare 1704153600000 snackOrders snackMenu) ! 0) =
     [\<lparr>itemId = ''samosa'', itemName = ''Samosa'', demand = 5, currentStock = 2,
       cumulativeDemand = 5, remaining = - 3, risk = True\<rparr>,
      \<lparr>itemId = ''chai'', itemName = ''Chai'', demand = 1, currentStock = 50,
       cumulativeDemand = 1, remaining = 49, risk = False\<rparr>,
      \<lparr>itemId = ''tea'', itemName = ''Tea'', demand = 4, currentStock = 10,
       cumulativeDemand = 4, remaining = 6, risk = False\<rparr>]"
  by (simp add: nth_forecast expectedDay_def expectedDayItems_def expectedItem_def
        snack_menuMap snack_demand cumulativeUpTo_def sort_cmp_def riskCmp_def codeCompare_def)

theorem risk_first_order_witness:
  "sorted_wrt (risk_first_then_name codeCompare)
     (items (forecast (computeForecast codeCompare 1704153600000 snackOrders snackMenu) ! 0)) \<and>
   map itemName
     (items (forecast (computeForecast codeCompare 1704153600000 snackOrders snackMenu) ! 0)) =
     [''Samosa'', ''Chai'', ''Tea'']"
  using risk_first_order[where lc = codeCompare and k = 0 and now = 1704153600000
      and ords = snackOrders and mds = snackMenu, OF codeCompare_anti codeCompare_trans]
  by (simp add: snack_day0)

subsection \<open>Risk against stock\<close>

lemma update_setItemStock:
  "AList.update j (snd (setItemStock i s (j, v))) (map (setItemStock i s) al) =
     map (setItemStock i s) (AList.update j v al)"
  by (induction al) (auto simp: setItemStock_def)

lemma menuMapOf_setStock:
  "menuMapOf (map (setStock i s) mds) = map (setItemStock i s) (menuMapOf mds)"
proof -
  let ?item = "\<lambda>d. \<lparr>mi_id = md_id d, mi_name = strOr (md_name d) ''Unknown'',
                    stock = (case md_quantity d of None \<Rightarrow> 0 | Some q \<Rightarrow> q)\<rparr>"
  have item: "\<lparr>mi_id = md_id d, mi_name = strOr (md_name (setStock i s d)) ''Unknown'',
        stock = (case md_quantity (setStock i s d) of None \<Rightarrow> 0 | Some q \<Rightarrow> q)\<rparr> =
      snd (setItemStock i s (md_id d, ?item d))" for d
    by (simp add: setStock_def setItemStock_def)
  have id: "md_id (setStock i s d) = md_id d" for d
    by (simp add: setStock_def)
  have "fold (\<lambda>d m. AList.update (md_id d) (?item d) m) (map (setStock i s) mds)
          (map (setItemStock i s) acc) =
        map (setItemStock i s) (fold (\<lambda>d m. AList.update (md_id d) (?item d) m) mds acc)"
    for acc
  proof (induction mds arbitrary: acc)
    case Nil
    show ?case by simp
  next
    case (Cons d mds)
    have "AList.update (md_id (setStock i s d)) (?item (setStock i s d))
            (map (setItemStock i s) acc) =
          map (setItemStock i s) (AList.update (md_id d) (?item d) acc)"
      unfolding id item by (rule update_setItemStock)
    then show ?case
      using Cons.IH[of "AList.update (md_id d) (?item d) acc"] by simp
  qed
  from this[of "[]"] show ?thesis
    by (simp add: menuMapOf_def)
qed

lemma map_of_setItemStock_name:
  "map_option mi_name (map_of (map (setItemStock i s) mm) j) = map_option mi_name (map_of mm j)"
  by (induction mm) (auto simp: setItemStock_def)

lemma enrich_setItemStock: "enrich (map (setItemStock i s) mm) = enrich mm"
  by (rule ext) (simp add: enrich_def map_of_setItemStock_name)

text \<open>
  Claim C9. If the only change between two runs is that the stock of one item is
  strictly smaller in the second, every day on which the first run flags the item as
  at risk is flagged in the second run too.
\<close>

theorem risk_monotone_in_stock:
  assumes "k < 7"
    and "map_of (menuMapOf mds) i = Some m"
    and "s < stock m"
    and "\<exists>x \<in> set (items (forecast (computeForecast lc now ords mds) ! k)).
           itemId x = i \<and> risk x"
  shows "\<exists>x \<in> set (items (forecast (computeForecast lc now ords (map (setStock i s) mds)) ! k)).
           itemId x = i \<and> risk x"
proof -
  let ?mm = "menuMapOf mds"
  let ?dm = "demandMapOf (map (enrich ?mm) ords)"
  from assms(1,4) obtain x where
    x: "x \<in> set (expectedDayItems ?dm now ?mm k)" "itemId x = i" "risk x"
    by (auto simp: nth_forecast expectedDay_def set_sort_cmp)
  then obtain e where e: "e \<in> set ?mm" "todayDemandOf ?dm (fst e) (dayAt now k) \<noteq> 0"
    "x = expectedItem ?dm now k e"
    by (auto simp: expectedDayItems_def)
  from e(3) x(2) have "fst e = i"
    by (cases e) (simp add: expectedItem_def)
  moreover obtain j m' where jm: "e = (j, m')"
    by (cases e)
  ultimately have "e = (i, m)"
    using e(1) assms(2) distinct_menuMapOf[of mds] by simp
  with e x(3) have neg: "stock m - cumulativeUpTo ?dm now i k < 0"
    and dem: "todayDemandOf ?dm i (dayAt now k) \<noteq> 0" and mem: "(i, m) \<in> set ?mm"
    by (simp_all add: expectedItem_def)
  let ?mm' = "map (setItemStock i s) ?mm"
  have dm': "demandMapOf (map (enrich ?mm') ords) = ?dm"
    by (simp add: enrich_setItemStock)
  have "(i, m\<lparr>stock := s\<rparr>) \<in> set ?mm'"
    using mem by (force simp: setItemStock_def)
  with dem have "expectedItem ?dm now k (i, m\<lparr>stock := s\<rparr>) \<in> set (expectedDayItems ?dm now ?mm' k)"
    by (force simp: expectedDayItems_def)
  moreover have "itemId (expectedItem ?dm now k (i, m\<lparr>stock := s\<rparr>)) = i"
    and "risk (expectedItem ?dm now k (i, m\<lparr>stock := s\<rparr>))"
    using neg assms(3) by (simp_all add: expectedItem_def)
  ultimately show ?thesis
    using assms(1)
    by (auto simp: nth_forecast expectedDay_def set_sort_cmp menuMapOf_setStock dm')
qed

theorem risk_monotone_in_stock_witness:
  "(\<exists>x \<in> set (items (forecast (computeForecast codeCompare 1704153600000 teaOrders
        teaMenu) ! 2)). itemId x = ''tea'' \<and> risk x) \<and>
   (\<exists>x \<in> set (items (forecast (computeForecast codeCompare 1704153600000 teaOrders
        (map (setStock ''tea'' 9) teaMenu)) ! 2)). itemId x = ''tea'' \<and> risk x)"
proof -
  have m: "map_of (menuMapOf teaMenu) ''tea'' =
      Some \<lparr>mi_id = ''tea'', mi_name = ''Tea'', stock = 10\<rparr>"
    by (simp add: tea_menuMap)
  have flagged: "\<exists>x \<in> set (items (forecast
      (computeForecast codeCompare 1704153600000 teaOrders teaMenu) ! 2)).
        itemId x = ''tea'' \<and> risk x"
    by (simp add: nth_forecast expectedDay_def set_sort_cmp tea_expected)
  have "\<exists>x \<in> set (items (forecast (computeForecast codeCompare 1704153600000 teaOrders
        (map (setStock ''tea'' 9) teaMenu)) ! 2)). itemId x = ''tea'' \<and> risk x"
    by (rule risk_monotone_in_stock[where m = "\<lparr>mi_id = ''tea'', mi_name = ''Tea'', stock = 10\<rparr>",
          OF _ m _ flagged]) simp_all
  with flagged show ?thesis
    by (rule conjI)
qed


subsection \<open>The daily-demand summary\<close>

lemma map_of_addDailyTotal:
  "map_of (addDailyTotal e acc) i =
     (if de_itemId e = i
      then Some (case map_of acc i of
                   None \<Rightarrow> \<lparr>dt_itemId = de_itemId e, dt_itemName = de_itemName e,
                             totalDaily = totalQuantity e\<rparr>
                 | Some t \<Rightarrow> t\<lparr>totalDaily := max (totalDaily t) (totalQuantity e)\<rparr>)
      else map_of acc i)"
  by (auto simp: addDailyTotal_def AList.update_conv' split: option.splits)

lemma distinct_addDailyTotal:
  "distinct (map fst acc) \<Longrightarrow> distinct (map fst (addDailyTotal e acc))"
  by (simp add: addDailyTotal_def AList.distinct_update split: option.splits)

lemma distinct_fold_addDailyTotal:
  "distinct (map fst acc) \<Longrightarrow> distinct (map fst (fold addDailyTotal es acc))"
  by (induction es arbitrary: acc) (simp_all add: distinct_addDailyTotal)

lemma itemQuantities_Cons:
  "itemQuantities (e # es) i =
     (if de_itemId e = i then insert (totalQuantity e) (itemQuantities es i)
      else itemQuantities es i)"
  by (auto simp: itemQuantities_def)

lemma finite_itemQuantities: "finite (itemQuantities es i)"
  by (simp add: itemQuantities_def)

text \<open>Once an item has a row, later entries only raise its maximum.\<close>

lemma fold_addDailyTotal_Some:
  "map_of acc i = Some t \<Longrightarrow>
   map_of (fold addDailyTotal es acc) i =
     Some (t\<lparr>totalDaily := Max (insert (totalDaily t) (itemQuantities es i))\<rparr>)"
proof (induction es arbitrary: acc t)
  case Nil
  then show ?case by (simp add: itemQuantities_def)
next
  case (Cons e es)
  show ?case
  proof (cases "de_itemId e = i")
    case True
    let ?t = "t\<lparr>totalDaily := max (totalDaily t) (totalQuantity e)\<rparr>"
    have "map_of (addDailyTotal e acc) i = Some ?t"
      using True Cons.prems by (simp add: map_of_addDailyTotal)
    from Cons.IH[OF this]
    have "map_of (fold addDailyTotal (e # es) acc) i =
        Some (?t\<lparr>totalDaily := Max (insert (totalDaily ?t) (itemQuantities es i))\<rparr>)"
      by simp
    moreover have "Max (insert (totalDaily ?t) (itemQuantities es i)) =
        Max (insert (totalDaily t) (itemQuantities (e # es) i))"
    proof -
      have "Max (insert (max (totalDaily t) (totalQuantity e)) (itemQuantities es i)) =
          Max (insert (totalDaily t) (insert (totalQuantity e) (itemQuantities es i)))"
        using finite_itemQuantities[of es i]
        by (cases "itemQuantities es i = {}") (simp_all add: max.assoc)
      then show ?thesis
        using True by (simp add: itemQuantities_Cons)
    qed
    ultimately show ?thesis by simp
  next
    case False
    have "map_of (addDailyTotal e acc) i = Some t"
      using False Cons.prems by (simp add: map_of_addDailyTotal)
    from Cons.IH[OF this] False show ?thesis
      by (simp add: itemQuantities_Cons)
  qed
qed

lemma fold_addDailyTotal_None:
  "map_of acc i = None \<Longrightarrow>
   (case map_of (fold addDailyTotal es acc) i of
      None \<Rightarrow> itemQuantities es i = {}
    | Some t \<Rightarrow> dt_itemId t = i \<and> itemQuantities es i \<noteq> {} \<and>
               totalDaily t = Max (itemQuantities es i))"
proof (induction es arbitrary: acc)
  case Nil
  then show ?case by (simp add: itemQuantities_def)
next
  case (Cons e es)
  show ?case
  proof (cases "de_itemId e = i")
    case True
    let ?t = "\<lparr>dt_itemId = de_itemId e, dt_itemName = de_itemName e,
               totalDaily = totalQuantity e\<rparr>"
    have "map_of (addDailyTotal e acc) i = Some ?t"
      using True Cons.prems by (simp add: map_of_addDailyTotal)
    from fold_addDailyTotal_Some[OF this, of es] True show ?thesis
      by (simp add: itemQuantities_Cons)
  next
    case False
    have "map_of (addDailyTotal e acc) i = None"
      using False Cons.prems by (simp add: map_of_addDailyTotal)
    moreover have "itemQuantities (e # es) i = itemQuantities es i"
      using False by (simp add: itemQuantities_Cons)
    ultimately show ?thesis
      using Cons.IH[of "addDailyTotal e acc"] by (simp only: fold_simps)
  qed
qed

lemma dailyTotalMapOf_lookup:
  "case map_of (dailyTotalMapOf es) i of
      None \<Rightarrow> itemQuantities es i = {}
    | Some t \<Rightarrow> dt_itemId t = i \<and> itemQuantities es i \<noteq> {} \<and>
               totalDaily t = Max (itemQuantities es i)"
  unfolding dailyTotalMapOf_def by (rule fold_addDailyTotal_None) simp

lemma distinct_dailyTotalMapOf: "distinct (map fst (dailyTotalMapOf es))"
  unfolding dailyTotalMapOf_def by (rule distinct_fold_addDailyTotal) simp

text \<open>The rows of a map with distinct keys whose values carry their key.\<close>

lemma filter_values_by_key:
  assumes "distinct (map fst al)"
    and "\<And>k v. (k, v) \<in> set al \<Longrightarrow> f v = k"
    and "map_of al i = Some t"
  shows "filter (\<lambda>v. f v = i) (map snd al) = [t]"
  using assms
proof (induction al)
  case Nil
  then show ?case by simp
next
  case (Cons p al)
  obtain k v where p: "p = (k, v)" by (cases p)
  have fv: "f v = k"
    using Cons.prems(2)[of k v] by (simp add: p)
  have rest: "\<And>k' v'. (k', v') \<in> set al \<Longrightarrow> f v' = k'"
    using Cons.prems(2) by simp
  show ?case
  proof (cases "k = i")
    case True
    have "v' \<in> snd ` set al \<Longrightarrow> f v' \<noteq> i" for v'
    proof
      assume "v' \<in> snd ` set al" and "f v' = i"
      then obtain k' where "(k', v') \<in> set al" by force
      with rest \<open>f v' = i\<close> have "(i, v') \<in> set al" by force
      then have "i \<in> fst ` set al" by force
      with Cons.prems(1) True show False by (simp add: p)
    qed
    then have "filter (\<lambda>v. f v = i) (map snd al) = []"
      by (auto simp: filter_empty_conv)
    with True fv Cons.prems(3) show ?thesis
      by (simp add: p)
  next
    case False
    with Cons.prems have "filter (\<lambda>v. f v = i) (map snd al) = [t]"
      using Cons.IH rest by (simp add: p)
    with False fv show ?thesis
      by (simp add: p)
  qed
qed

lemma dailyTotalMapOf_rows:
  assumes "e \<in> set es"
  shows "\<exists>t. filter (\<lambda>t'. dt_itemId t' = de_itemId e) (map snd (dailyTotalMapOf es)) = [t] \<and>
             totalDaily t = Max (itemQuantities es (de_itemId e))"
proof -
  let ?i = "de_itemId e"
  have ne: "itemQuantities es ?i \<noteq> {}"
    using assms by (auto simp: itemQuantities_def)
  with dailyTotalMapOf_lookup[of es ?i] obtain t where
    t: "map_of (dailyTotalMapOf es) ?i = Some t" "totalDaily t = Max (itemQuantities es ?i)"
    by (cases "map_of (dailyTotalMapOf es) ?i") auto
  have key: "dt_itemId v = k" if "(k, v) \<in> set (dailyTotalMapOf es)" for k v
  proof -
    from that have "map_of (dailyTotalMapOf es) k = Some v"
      using distinct_dailyTotalMapOf[of es] by simp
    with dailyTotalMapOf_lookup[of es k] show ?thesis by simp
  qed
  have "filter (\<lambda>t'. dt_itemId t' = ?i) (map snd (dailyTotalMapOf es)) = [t]"
    by (rule filter_values_by_key[OF distinct_dailyTotalMapOf key t(1)])
  with t(2) show ?thesis by blast
qed

lemma filter_sort_cmp_single:
  assumes "filter P xs = [t]"
  shows "filter P (sort_cmp cmp xs) = [t]"
proof -
  have "mset (filter P (sort_cmp cmp xs)) = mset (filter P xs)"
    by (simp add: mset_sort_cmp)
  also have "\<dots> = {#t#}"
    unfolding assms by simp
  finally show ?thesis
    by (simp only: mset_single_iff)
qed


lemma set_update_cases:
  "p \<in> set (AList.update k v al) \<Longrightarrow> p = (k, v) \<or> p \<in> set al"
  by (induction al) (auto split: if_splits)

lemma keyed_addDemand:
  assumes "keyed dm"
  shows "keyed (addDemand ord day dm)"
proof (cases "map_of dm (demandKey (eo_itemId ord) day)")
  case None
  with assms show ?thesis
    by (auto simp: keyed_def addDemand_def AList.distinct_update list_all_iff
          dest!: set_update_cases)
next
  case (Some ex)
  with assms have "(demandKey (eo_itemId ord) day, ex) \<in> set dm"
    by (simp add: keyed_def)
  with assms have "demandKey (eo_itemId ord) day = demandKey (de_itemId ex) (de_day ex)"
    by (auto simp: keyed_def list_all_iff)
  with assms Some show ?thesis
    by (auto simp: keyed_def addDemand_def AList.distinct_update list_all_iff
          dest!: set_update_cases)
qed

lemma keyed_days: "keyed dm \<Longrightarrow> keyed (fold (addDemand ord) days dm)"
  by (induction days arbitrary: dm) (simp_all add: keyed_addDemand)

lemma keyed_demandMapOf: "keyed (demandMapOf orders)"
proof -
  have "keyed dm \<Longrightarrow>
      keyed (fold (\<lambda>ord dm. fold (addDemand ord) (scheduledDays ord) dm) orders dm)" for dm
    by (induction orders arbitrary: dm) (simp_all add: keyed_days)
  from this[of "[]"] show ?thesis
    by (simp add: demandMapOf_def keyed_def)
qed

lemma distinct_of_map: "distinct (map f xs) \<Longrightarrow> distinct xs"
  by (induction xs) auto

lemma distinct_item_day:
  assumes "keyed dm"
  shows "distinct (map (\<lambda>e. (de_itemId e, de_day e)) (map snd dm))"
proof -
  have eq: "map (\<lambda>p. demandKey (fst p) (snd p))
        (map (\<lambda>e. (de_itemId e, de_day e)) (map snd dm)) = map fst dm"
    using assms by (auto simp: keyed_def list_all_iff)
  have "distinct (map fst dm)"
    using assms by (simp add: keyed_def)
  then have "distinct (map (\<lambda>p. demandKey (fst p) (snd p))
      (map (\<lambda>e. (de_itemId e, de_day e)) (map snd dm)))"
    by (simp only: eq)
  then show ?thesis
    by (rule distinct_of_map)
qed

lemma aggregate_one_per_item_day:
  "distinct (map (\<lambda>e. (de_itemId e, de_day e))
     (aggregateDemand (computeForecast lc now ords mds)))"
proof -
  let ?dm = "demandMapOf (map (enrich (menuMapOf mds)) ords)"
  have agg: "aggregateDemand (computeForecast lc now ords mds) =
      sort_cmp (demandCmp lc) (map snd ?dm)"
    by (simp add: computeForecast_def Let_def)
  have "mset (map (\<lambda>e. (de_itemId e, de_day e)) (sort_cmp (demandCmp lc) (map snd ?dm))) =
      mset (map (\<lambda>e. (de_itemId e, de_day e)) (map snd ?dm))"
    by (simp only: mset_map mset_sort_cmp)
  then have "distinct (map (\<lambda>e. (de_itemId e, de_day e)) (sort_cmp (demandCmp lc) (map snd ?dm))) =
      distinct (map (\<lambda>e. (de_itemId e, de_day e)) (map snd ?dm))"
    by (rule mset_eq_imp_distinct_iff)
  with distinct_item_day[OF keyed_demandMapOf] show ?thesis
    by (simp only: agg)
qed

lemma aggregate_entry_demand:
  assumes "e \<in> set (aggregateDemand (computeForecast lc now ords mds))"
  shows "map_of (demandMapOf (autoOrders (computeForecast lc now ords mds)))
           (demandKey (de_itemId e) (de_day e)) = Some e"
proof -
  let ?dm = "demandMapOf (map (enrich (menuMapOf mds)) ords)"
  have ao: "autoOrders (computeForecast lc now ords mds) = map (enrich (menuMapOf mds)) ords"
    by (simp add: computeForecast_def Let_def)
  from assms have "e \<in> snd ` set ?dm"
    by (simp add: computeForecast_def Let_def set_sort_cmp)
  then obtain k where "(k, e) \<in> set ?dm"
    by force
  moreover from this have "k = demandKey (de_itemId e) (de_day e)"
    using keyed_demandMapOf[of "map (enrich (menuMapOf mds)) ords"]
    by (auto simp: keyed_def list_all_iff)
  ultimately show ?thesis
    using keyed_demandMapOf[of "map (enrich (menuMapOf mds)) ords"]
    by (simp add: ao keyed_def)
qed

lemma peak_aggregate:
  "aggregateDemand (computeForecast codeCompare 1704153600000 peakOrders teaMenu) =
     [\<lparr>de_itemId = ''tea'', de_itemName = ''Tea'', de_day = Mon, totalQuantity = 4\<rparr>,
      \<lparr>de_itemId = ''tea'', de_itemName = ''Tea'', de_day = Tue, totalQuantity = 4\<rparr>,
      \<lparr>de_itemId = ''tea'', de_itemName = ''Tea'', de_day = Wed, totalQuantity = 7\<rparr>,
      \<lparr>de_itemId = ''tea'', de_itemName = ''Tea'', de_day = Thu, totalQuantity = 4\<rparr>,
      \<lparr>de_itemId = ''tea'', de_itemName = ''Tea'', de_day = Fri, totalQuantity = 4\<rparr>]"
  by (simp add: computeForecast_def Let_def peakOrders_def tea_menuMap enrich_def strOr_def
        getScheduledDays_def WEEKDAYS_def demandMapOf_def addDemand_def demandKey_def
        sort_cmp_def demandCmp_def codeCompare_def ALL_DAYS_def)


text \<open>
  Claim C7. For every item that appears in the aggregated demand, the daily-demand
  summary has exactly one row, and its \<open>totalDaily\<close> is the maximum of the single-day
  demands of the item: the largest quantity among its aggregated entries, of which
  there is one for each weekday the item appears on.
\<close>

theorem daily_demand_is_max:
  assumes "e \<in> set (aggregateDemand (computeForecast lc now ords mds))"
  shows "(\<exists>t. filter (\<lambda>t'. dt_itemId t' = de_itemId e)
               (dailyDemandByItem (summary (computeForecast lc now ords mds))) = [t] \<and>
             totalDaily t =
               Max (itemQuantities (aggregateDemand (computeForecast lc now ords mds))
                      (de_itemId e))) \<and>
         distinct (map (\<lambda>e. (de_itemId e, de_day e))
                    (aggregateDemand (computeForecast lc now ords mds)))"
proof -
  let ?agg = "aggregateDemand (computeForecast lc now ords mds)"
  have rows: "dailyDemandByItem (summary (computeForecast lc now ords mds)) =
      sort_cmp (\<lambda>a b. totalDaily b - totalDaily a) (map snd (dailyTotalMapOf ?agg))"
    by (simp add: computeForecast_def Let_def)
  from dailyTotalMapOf_rows[OF assms] obtain t where
    t: "filter (\<lambda>t'. dt_itemId t' = de_itemId e) (map snd (dailyTotalMapOf ?agg)) = [t]"
       "totalDaily t = Max (itemQuantities ?agg (de_itemId e))"
    by blast
  from filter_sort_cmp_single[OF t(1)] t(2) aggregate_one_per_item_day[of lc now ords mds]
  show ?thesis
    unfolding rows by blast
qed

theorem daily_demand_is_max_witness:
  "(\<exists>t. filter (\<lambda>t'. dt_itemId t' = ''tea'')
          (dailyDemandByItem
            (summary (computeForecast codeCompare 1704153600000 peakOrders teaMenu))) = [t] \<and>
        totalDaily t = 7)"
proof -
  let ?e = "\<lparr>de_itemId = ''tea'', de_itemName = ''Tea'', de_day = Mon, totalQuantity = 4\<rparr>"
  have mem: "?e \<in> set (aggregateDemand
      (computeForecast codeCompare 1704153600000 peakOrders teaMenu))"
    by (simp add: peak_aggregate)
  have mx: "Max (itemQuantities (aggregateDemand
      (computeForecast codeCompare 1704153600000 peakOrders teaMenu)) ''tea'') = 7"
    by (simp add: peak_aggregate itemQuantities_def)
  show ?thesis
    using daily_demand_is_max[OF mem] by (simp add: mx)
qed

end
